theory Spec2Isabelle
  imports Main "HOL-Library.Sublist"
begin

section \<open>Data model (models.py)\<close>

text \<open>
  The two closed enumerations, in their declaration order.  Both are \<open>str\<close>-mixin
  enums whose values are non-empty strings, so every member is truthy.
\<close>

datatype Tone = professional | casual | technical | creative | academic | friendly

datatype TaskCategory =
  coding | writing | analysis | brainstorming | summarization | translation
  | debugging | explanation | general

text \<open>
  A Python \<open>str\<close> is modelled by a \<open>string\<close>: the list of bytes of its UTF-8 encoding.
  A \<open>datetime\<close> is an opaque number supplied by the caller of every operation that
  reads the clock.
\<close>

type_synonym timestamp = nat

text \<open>\<open>HistoryEntry\<close>: the field \<open>id\<close> is \<open>entry_id\<close> here, the other fields carry
  the prefix \<open>h_\<close> where the name is shared with another model class.\<close>

record HistoryEntry =
  entry_id :: int
  h_original :: string
  h_enhanced :: string
  h_category :: TaskCategory
  h_tone :: Tone
  h_timestamp :: timestamp
  starred :: bool

text \<open>\<open>TemplateInfo\<close>, \<open>PromptRequest\<close> and \<open>EnhancedPrompt\<close>; the fields carry a
  prefix, since several classes share field names.\<close>

record TemplateInfo =
  t_id :: string
  t_name :: string
  t_category :: TaskCategory
  t_description :: string
  t_template :: string
  t_variables :: "string list"

record PromptRequest =
  rq_raw_prompt :: string
  rq_tone :: Tone
  rq_category :: "TaskCategory option"
  rq_context :: "string option"
  rq_auto_enhance :: bool
  rq_template_id :: "string option"

record EnhancedPrompt =
  ep_original :: string
  ep_enhanced :: string
  ep_category :: TaskCategory
  ep_tone :: Tone
  ep_techniques_applied :: "string list"
  ep_timestamp :: timestamp

text \<open>
  Python is dynamically typed: \<open>render_template\<close> is declared on a dictionary from
  strings to strings, but \<open>PromptEngine.process\<close> hands it whatever \<open>json.loads\<close>
  returned.  \<open>pyval\<close> are the values \<open>json.loads\<close> can return; a dictionary is an
  association list whose lookup takes the first pair with the key.  The number a float
  holds plays no part and is left out.
\<close>

datatype pyval =
  PNone | PBool bool | PInt int | PFloat | PStr string
  | PList "pyval list" | PDict "(string \<times> pyval) list"

text \<open>A dictionary from strings to strings, as the declared type of \<open>variables\<close> asks.\<close>

definition str_dict :: "(string \<times> string) list \<Rightarrow> pyval" where
  "str_dict kvs = PDict (map (\<lambda>(k, v). (k, PStr v)) kvs)"

text \<open>The exceptions that the modelled code can raise; \<open>ValueError\<close> carries its message.\<close>

datatype error = ValueError string | AttributeError | TypeError | RecursionError

section \<open>Strings\<close>

text \<open>
  The operations of \<open>str\<close> that the program uses, on the ASCII range: bytes from
  0x80 on are neither whitespace nor letters here, so text whose whitespace and
  upper-case letters are ASCII behaves as in Python.

  \<open>whitespace\<close> lists the ASCII characters for which \<open>str.isspace\<close> holds:
  TAB, LF, VT, FF, CR, FS, GS, RS, US and the space.
\<close>

definition whitespace :: "char list" where
  "whitespace = [CHR 0x09, CHR 0x0A, CHR 0x0B, CHR 0x0C, CHR 0x0D,
                 CHR 0x1C, CHR 0x1D, CHR 0x1E, CHR 0x1F, CHR 0x20]"

definition is_space :: "char \<Rightarrow> bool" where
  "is_space c = (c \<in> set whitespace)"

text \<open>
  \<open>s.split()\<close> with no separator: the maximal runs of non-whitespace characters, in
  order; \<open>w\<close> is the word being read.
\<close>

fun split_acc :: "string \<Rightarrow> string \<Rightarrow> string list" where
  "split_acc w [] = (if w = [] then [] else [w])"
| "split_acc w (c # cs) =
     (if is_space c then (if w = [] then split_acc [] cs else w # split_acc [] cs)
      else split_acc (w @ [c]) cs)"

definition split_ws :: "string \<Rightarrow> string list" where
  "split_ws s = split_acc [] s"

text \<open>\<open>s.strip()\<close>: leading and trailing whitespace removed.\<close>

definition strip_ws :: "string \<Rightarrow> string" where
  "strip_ws s = rev (dropWhile is_space (rev (dropWhile is_space s)))"

text \<open>\<open>s.lower()\<close> on ASCII.\<close>

definition lower_char :: "char \<Rightarrow> char" where
  "lower_char c =
     (case map_of (zip ''ABCDEFGHIJKLMNOPQRSTUVWXYZ'' ''abcdefghijklmnopqrstuvwxyz'') c of
        Some d \<Rightarrow> d
      | None \<Rightarrow> c)"

definition str_lower :: "string \<Rightarrow> string" where
  "str_lower s = map lower_char s"

text \<open>\<open>sub in s\<close>: \<open>sub\<close> occurs in \<open>s\<close> as a contiguous substring.\<close>

fun contains :: "string \<Rightarrow> string \<Rightarrow> bool" where
  "contains sub [] = (sub = [])"
| "contains sub (c # cs) = (prefix sub (c # cs) \<or> contains sub cs)"

text \<open>
  \<open>s.replace(old, new)\<close>: the occurrences of \<open>old\<close> are found from the left and do
  not overlap.  For an empty \<open>old\<close> Python puts \<open>new\<close> before every character and
  at the end.
\<close>

function str_replace :: "string \<Rightarrow> string \<Rightarrow> string \<Rightarrow> string" where
  "str_replace s [] new = new @ concat (map (\<lambda>c. c # new) s)"
| "str_replace [] (x # old) new = []"
| "str_replace (c # cs) (x # old) new =
     (if prefix (x # old) (c # cs)
      then new @ str_replace (drop (length (x # old)) (c # cs)) (x # old) new
      else c # str_replace cs (x # old) new)"
  by pat_completeness auto
termination
  by (relation "measure (\<lambda>(s, old, new). length s)") auto

section \<open>Category detection and enhancement (enhancer.py)\<close>

text \<open>\<open>_CATEGORY_KEYWORDS\<close>, in the order of the dictionary.\<close>

definition CATEGORY_KEYWORDS :: "(TaskCategory \<times> string list) list" where
  "CATEGORY_KEYWORDS =
    [(coding,
       [''code'', ''function'', ''class'', ''script'', ''program'', ''implement'', ''api'',
        ''bug'', ''error'', ''syntax'', ''compile'', ''algorithm'', ''database'', ''sql'',
        ''python'', ''javascript'', ''typescript'', ''java'', ''rust'', ''html'', ''css'',
        ''react'', ''django'', ''flask'', ''fastapi'', ''node'', ''docker'', ''git'']),
     (debugging,
       [''debug'', ''fix'', ''error'', ''traceback'', ''exception'', ''crash'', ''broken'',
        ''not working'', ''fails'', ''issue'', ''stack trace'', ''segfault'']),
     (writing,
       [''write'', ''draft'', ''compose'', ''essay'', ''article'', ''blog'', ''email'',
        ''letter'', ''copy'', ''content'', ''narrative'', ''story'', ''report'']),
     (analysis,
       [''analyze'', ''analyse'', ''compare'', ''evaluate'', ''assess'', ''review'',
        ''pros and cons'', ''tradeoff'', ''benchmark'', ''metrics'', ''data'']),
     (brainstorming,
       [''brainstorm'', ''ideas'', ''suggest'', ''creative'', ''innovate'', ''think of'',
        ''come up with'', ''generate ideas'', ''possibilities'']),
     (summarization,
       [''summarize'', ''summarise'', ''summary'', ''tldr'', ''tl;dr'', ''key points'',
        ''brief'', ''condense'', ''shorten'', ''recap'']),
     (translation,
       [''translate'', ''translation'', ''convert to'', ''in spanish'', ''in french'',
        ''in german'', ''in japanese'', ''in chinese'', ''in hindi'', ''localize'']),
     (explanation,
       [''explain'', ''what is'', ''how does'', ''how do'', ''why does'', ''teach me'',
        ''eli5'', ''definition'', ''meaning of'', ''concept of'', ''understand''])]"

text \<open>
  The two nested loops of \<open>detect_category\<close>.  The dictionary \<open>scores\<close> has every
  category as a key, so it is a total function; the inner loop adds one for each keyword
  of the category that occurs in the lower-cased text.
\<close>

definition count_keywords ::
  "string \<Rightarrow> (TaskCategory \<Rightarrow> int) \<Rightarrow> TaskCategory \<times> string list \<Rightarrow> (TaskCategory \<Rightarrow> int)" where
  "count_keywords lower sc entry =
     (case entry of (category, keywords) \<Rightarrow>
        foldl (\<lambda>sc kw. if contains kw lower then sc(category := sc category + 1) else sc)
          sc keywords)"

definition scores :: "string \<Rightarrow> TaskCategory \<Rightarrow> int" where
  "scores lower = foldl (count_keywords lower) (\<lambda>cat. 0) CATEGORY_KEYWORDS"

text \<open>
  Python's \<open>max(iterable, key=f)\<close>: the scan keeps the first of the largest items, it
  replaces the best so far only by a strictly larger one.  The keys of \<open>scores\<close> are
  iterated in the declaration order of the enumeration.
\<close>

fun max_key_from :: "('a \<Rightarrow> int) \<Rightarrow> 'a \<Rightarrow> 'a list \<Rightarrow> 'a" where
  "max_key_from key best [] = best"
| "max_key_from key best (x # xs) = max_key_from key (if key best < key x then x else best) xs"

definition max_category :: "(TaskCategory \<Rightarrow> int) \<Rightarrow> TaskCategory" where
  "max_category sc =
     max_key_from sc coding
       [writing, analysis, brainstorming, summarization, translation, debugging,
        explanation, general]"

definition detect_category :: "string \<Rightarrow> TaskCategory" where
  "detect_category text =
     (let lower = str_lower text;
          sc = scores lower
      in if 0 < sc debugging \<and> 0 < sc coding \<and> sc coding \<le> sc debugging then debugging
         else (let best = max_category sc in if 0 < sc best then best else general))"

text \<open>
  \<open>_TONE_INSTRUCTIONS\<close> and \<open>get_tone_instruction\<close>; every tone has an entry, so the
  default of \<open>.get\<close> is never taken.  The dash of the casual sentence is U+2014.
\<close>

fun get_tone_instruction :: "Tone \<Rightarrow> string" where
  "get_tone_instruction professional =
     ''Use a professional, clear, and business-appropriate tone.''"
| "get_tone_instruction casual =
     ''Use a relaxed, conversational tone '' @ [CHR 0xE2, CHR 0x80, CHR 0x94]
       @ '' like chatting with a friend.''"
| "get_tone_instruction technical =
     ''Use precise technical language with proper terminology.''"
| "get_tone_instruction creative =
     ''Be creative, expressive, and imaginative in your response.''"
| "get_tone_instruction academic =
     ''Use formal academic language with proper citations style.''"
| "get_tone_instruction friendly =
     ''Be warm, approachable, and encouraging in your response.''"

text \<open>
  \<open>_add_specificity\<close>: a word count of 0 stands for "not given" and makes the
  function count the words of \<open>prompt\<close> itself.
\<close>

definition add_specificity :: "string \<Rightarrow> nat \<Rightarrow> string \<times> bool" where
  "add_specificity prompt original_word_count =
     (let wc = (if 0 < original_word_count then original_word_count
                else length (split_ws prompt))
      in if wc < 8
         then (prompt @ ''\<newline>\<newline>Please be specific and detailed in your response. ''
                 @ ''Include concrete examples where relevant.'', True)
         else (prompt, False))"

text \<open>The dictionary \<open>structure_hints\<close>; the arrows of the debugging hint are U+2192.\<close>

fun structure_hints :: "TaskCategory \<Rightarrow> string option" where
  "structure_hints coding =
     Some ''\<newline>\<newline>Structure your response with: explanation, code, and usage example.''"
| "structure_hints analysis =
     Some ''\<newline>\<newline>Organize your analysis with clear sections, bullet points, and a conclusion.''"
| "structure_hints writing =
     Some ''\<newline>\<newline>Use proper headings, paragraphs, and a logical flow.''"
| "structure_hints explanation =
     Some ''\<newline>\<newline>Start with a simple overview, then progressively add detail.''"
| "structure_hints debugging =
     Some (''\<newline>\<newline>Structure: identify the bug '' @ [CHR 0xE2, CHR 0x86, CHR 0x92]
       @ '' explain the cause '' @ [CHR 0xE2, CHR 0x86, CHR 0x92]
       @ '' provide the fix '' @ [CHR 0xE2, CHR 0x86, CHR 0x92]
       @ '' suggest prevention.'')"
| "structure_hints brainstorming =
     Some ''\<newline>\<newline>Present ideas in a numbered list with brief descriptions.''"
| "structure_hints summarization =
     Some ''\<newline>\<newline>Provide an executive summary, then key bullet points.''"
| "structure_hints translation = None"
| "structure_hints general = None"

text \<open>\<open>_add_structure_request\<close>: \<open>if hint\<close> holds for a hint that is present and not empty.\<close>

definition add_structure_request :: "string \<Rightarrow> TaskCategory \<Rightarrow> string \<times> bool" where
  "add_structure_request prompt category =
     (case structure_hints category of
        Some hint \<Rightarrow> if hint \<noteq> [] then (prompt @ hint, True) else (prompt, False)
      | None \<Rightarrow> (prompt, False))"

text \<open>The dictionary \<open>roles\<close> of \<open>_add_role_framing\<close>; every category has an entry.\<close>

fun roles :: "TaskCategory \<Rightarrow> string" where
  "roles coding = ''You are an expert software engineer with deep knowledge of best practices.''"
| "roles debugging = ''You are a senior developer skilled at diagnosing and fixing complex bugs.''"
| "roles writing = ''You are a skilled writer who crafts engaging, well-structured content.''"
| "roles analysis = ''You are a data analyst who provides clear, evidence-based insights.''"
| "roles brainstorming = ''You are a creative strategist who generates innovative solutions.''"
| "roles explanation = ''You are a patient teacher who explains complex topics clearly.''"
| "roles summarization = ''You are an editor who distills information to its essential points.''"
| "roles translation = ''You are a professional translator who preserves meaning and nuance.''"
| "roles general = ''You are a helpful, knowledgeable assistant.''"

definition add_role_framing :: "string \<Rightarrow> TaskCategory \<Rightarrow> string \<times> bool" where
  "add_role_framing prompt category = (roles category @ ''\<newline>\<newline>'' @ prompt, True)"

definition add_quality_guardrails :: "string \<Rightarrow> string \<times> bool" where
  "add_quality_guardrails prompt =
     (prompt @ ''\<newline>\<newline>Important guidelines:\<newline>''
        @ ''- If you'' @ [CHR 0x27] @ ''re unsure about something, say so rather than guessing\<newline>''
        @ ''- Prioritize accuracy over completeness\<newline>''
        @ ''- Use concrete examples to illustrate points'', True)"

text \<open>
  \<open>enhance_prompt\<close> returns the enhanced text, the resolved category and the list of
  techniques.  \<open>category or detect_category(raw_prompt)\<close> takes a given category as it
  is (every member is truthy); \<open>if extra_context\<close> holds for a context that is given
  and not empty.
\<close>

definition enhance_prompt ::
  "string \<Rightarrow> Tone \<Rightarrow> TaskCategory option \<Rightarrow> string option
    \<Rightarrow> string \<times> TaskCategory \<times> string list" where
  "enhance_prompt raw_prompt tone category extra_context =
     (let detected = (case category of Some c \<Rightarrow> c | None \<Rightarrow> detect_category raw_prompt);
          techniques = [];
          prompt = strip_ws raw_prompt;
          (prompt, applied) = add_role_framing prompt detected;
          techniques = (if applied then techniques @ [''role_framing''] else techniques);
          tone_instr = get_tone_instruction tone;
          prompt = prompt @ ''\<newline>\<newline>'' @ tone_instr;
          techniques = techniques @ [''tone_styling''];
          (prompt, applied) = add_specificity prompt (length (split_ws raw_prompt));
          techniques = (if applied then techniques @ [''specificity_boost''] else techniques);
          (prompt, applied) = add_structure_request prompt detected;
          techniques = (if applied then techniques @ [''structure_guidance''] else techniques);
          (prompt, techniques) =
             (case extra_context of
                Some ctx \<Rightarrow>
                  if ctx \<noteq> []
                  then (prompt @ ''\<newline>\<newline>Additional context:\<newline>'' @ ctx,
                        techniques @ [''context_injection''])
                  else (prompt, techniques)
              | None \<Rightarrow> (prompt, techniques));
          (prompt, applied) = add_quality_guardrails prompt;
          techniques = (if applied then techniques @ [''quality_guardrails''] else techniques)
      in (prompt, detected, techniques))"

section \<open>Template registry (templates.py)\<close>

text \<open>The twelve registered templates, in the order of their registration.\<close>

definition template_code_write :: TemplateInfo where
  "template_code_write =
     \<lparr>t_id = ''code-write'',
      t_name = ''Write Code'',
      t_category = coding,
      t_description = ''Generate clean, well-documented code for a given task'',
      t_template =
        ''Write {language} code that accomplishes the following:\<newline>''
        @ ''\<newline>''
        @ ''{task_description}\<newline>''
        @ ''\<newline>''
        @ ''Requirements:\<newline>''
        @ ''- Follow best practices and idiomatic patterns for {language}\<newline>''
        @ ''- Include clear comments explaining the logic\<newline>''
        @ ''- Handle edge cases and errors gracefully\<newline>''
        @ ''- Provide example usage'',
      t_variables = [''language'', ''task_description'']\<rparr>"

definition template_code_review :: TemplateInfo where
  "template_code_review =
     \<lparr>t_id = ''code-review'',
      t_name = ''Code Review'',
      t_category = coding,
      t_description = ''Get a thorough code review with actionable suggestions'',
      t_template =
        ''Perform a detailed code review of the following code:\<newline>''
        @ ''\<newline>''
        @ ''```{language}\<newline>''
        @ ''{code}\<newline>''
        @ ''```\<newline>''
        @ ''\<newline>''
        @ ''Evaluate for:\<newline>''
        @ ''1. Correctness and potential bugs\<newline>''
        @ ''2. Performance and efficiency\<newline>''
        @ ''3. Readability and maintainability\<newline>''
        @ ''4. Security concerns\<newline>''
        @ ''5. Adherence to {language} best practices\<newline>''
        @ ''\<newline>''
        @ ''Provide specific, actionable suggestions with code examples.'',
      t_variables = [''language'', ''code'']\<rparr>"

definition template_code_debug :: TemplateInfo where
  "template_code_debug =
     \<lparr>t_id = ''code-debug'',
      t_name = ''Debug Code'',
      t_category = debugging,
      t_description = ''Systematically debug code issues'',
      t_template =
        ''I have the following {language} code that is producing an error:\<newline>''
        @ ''\<newline>''
        @ ''```{language}\<newline>''
        @ ''{code}\<newline>''
        @ ''```\<newline>''
        @ ''\<newline>''
        @ ''Error message: {error_message}\<newline>''
        @ ''\<newline>''
        @ ''Please:\<newline>''
        @ ''1. Identify the root cause of the error\<newline>''
        @ ''2. Explain why the error occurs\<newline>''
        @ ''3. Provide the corrected code\<newline>''
        @ ''4. Suggest how to prevent similar issues'',
      t_variables = [''language'', ''code'', ''error_message'']\<rparr>"

definition template_write_article :: TemplateInfo where
  "template_write_article =
     \<lparr>t_id = ''write-article'',
      t_name = ''Write Article'',
      t_category = writing,
      t_description = ''Create a well-structured article on any topic'',
      t_template =
        ''Write a comprehensive article about: {topic}\<newline>''
        @ ''\<newline>''
        @ ''Target audience: {audience}\<newline>''
        @ ''Desired length: {length}\<newline>''
        @ ''\<newline>''
        @ ''Structure the article with:\<newline>''
        @ ''- An engaging introduction that hooks the reader\<newline>''
        @ ''- Well-organized sections with clear headings\<newline>''
        @ ''- Supporting evidence, examples, or data points\<newline>''
        @ ''- A compelling conclusion with key takeaways\<newline>''
        @ ''\<newline>''
        @ ''Tone: {tone}'',
      t_variables = [''topic'', ''audience'', ''length'', ''tone'']\<rparr>"

definition template_write_email :: TemplateInfo where
  "template_write_email =
     \<lparr>t_id = ''write-email'',
      t_name = ''Compose Email'',
      t_category = writing,
      t_description = ''Draft a professional or casual email'',
      t_template =
        ''Draft an email with the following details:\<newline>''
        @ ''\<newline>''
        @ ''Purpose: {purpose}\<newline>''
        @ ''Recipient: {recipient}\<newline>''
        @ ''Key points to cover:\<newline>''
        @ ''{key_points}\<newline>''
        @ ''\<newline>''
        @ ''Tone: {tone}\<newline>''
        @ ''Keep it concise and action-oriented.'',
      t_variables = [''purpose'', ''recipient'', ''key_points'', ''tone'']\<rparr>"

definition template_analyze_data :: TemplateInfo where
  "template_analyze_data =
     \<lparr>t_id = ''analyze-data'',
      t_name = ''Analyze Data'',
      t_category = analysis,
      t_description = ''Get structured analysis of data or information'',
      t_template =
        ''Analyze the following data/information:\<newline>''
        @ ''\<newline>''
        @ ''{data}\<newline>''
        @ ''\<newline>''
        @ ''Please provide:\<newline>''
        @ ''1. Key findings and patterns\<newline>''
        @ ''2. Notable outliers or anomalies\<newline>''
        @ ''3. Trends and correlations\<newline>''
        @ ''4. Actionable insights and recommendations\<newline>''
        @ ''5. Limitations of this analysis\<newline>''
        @ ''\<newline>''
        @ ''Focus area: {focus_area}'',
      t_variables = [''data'', ''focus_area'']\<rparr>"

definition template_compare_options :: TemplateInfo where
  "template_compare_options =
     \<lparr>t_id = ''compare-options'',
      t_name = ''Compare Options'',
      t_category = analysis,
      t_description = ''Get a structured comparison of multiple options'',
      t_template =
        ''Compare the following options:\<newline>''
        @ ''\<newline>''
        @ ''{options}\<newline>''
        @ ''\<newline>''
        @ ''Evaluation criteria: {criteria}\<newline>''
        @ ''\<newline>''
        @ ''For each option provide:\<newline>''
        @ ''- Pros and cons\<newline>''
        @ ''- Best use cases\<newline>''
        @ ''- Cost/effort considerations\<newline>''
        @ ''- Final recommendation with justification'',
      t_variables = [''options'', ''criteria'']\<rparr>"

definition template_brainstorm_ideas :: TemplateInfo where
  "template_brainstorm_ideas =
     \<lparr>t_id = ''brainstorm-ideas'',
      t_name = ''Brainstorm Ideas'',
      t_category = brainstorming,
      t_description = ''Generate creative ideas for a topic or problem'',
      t_template =
        ''Generate creative and diverse ideas for:\<newline>''
        @ ''\<newline>''
        @ ''{topic}\<newline>''
        @ ''\<newline>''
        @ ''Constraints: {constraints}\<newline>''
        @ ''\<newline>''
        @ ''Please provide:\<newline>''
        @ ''- At least 10 unique ideas ranging from practical to innovative\<newline>''
        @ ''- A brief description of each idea\<newline>''
        @ ''- Why each idea could work\<newline>''
        @ ''- Quick feasibility rating (Easy / Medium / Hard)'',
      t_variables = [''topic'', ''constraints'']\<rparr>"

definition template_summarize_text :: TemplateInfo where
  "template_summarize_text =
     \<lparr>t_id = ''summarize-text'',
      t_name = ''Summarize Text'',
      t_category = summarization,
      t_description = ''Create concise summaries of long content'',
      t_template =
        ''Summarize the following content:\<newline>''
        @ ''\<newline>''
        @ ''{content}\<newline>''
        @ ''\<newline>''
        @ ''Provide:\<newline>''
        @ ''1. A one-paragraph executive summary\<newline>''
        @ ''2. Key bullet points (5-7 items)\<newline>''
        @ ''3. Important details that shouldn'' @ [CHR 0x27] @ ''t be missed\<newline>''
        @ ''4. Action items or next steps (if applicable)'',
      t_variables = [''content'']\<rparr>"

definition template_explain_concept :: TemplateInfo where
  "template_explain_concept =
     \<lparr>t_id = ''explain-concept'',
      t_name = ''Explain Concept'',
      t_category = explanation,
      t_description = ''Get a clear explanation of any concept'',
      t_template =
        ''Explain the concept of: {concept}\<newline>''
        @ ''\<newline>''
        @ ''Target knowledge level: {level}\<newline>''
        @ ''\<newline>''
        @ ''Please include:\<newline>''
        @ ''- A simple, intuitive explanation\<newline>''
        @ ''- A real-world analogy\<newline>''
        @ ''- Key terminology defined\<newline>''
        @ ''- A practical example\<newline>''
        @ ''- Common misconceptions to avoid\<newline>''
        @ ''- Resources for deeper learning'',
      t_variables = [''concept'', ''level'']\<rparr>"

definition template_eli5 :: TemplateInfo where
  "template_eli5 =
     \<lparr>t_id = ''eli5'',
      t_name = ''Explain Like I'' @ [CHR 0x27] @ ''m 5'',
      t_category = explanation,
      t_description = ''Super-simple explanation for complex topics'',
      t_template =
        ''Explain {concept} in the simplest possible terms, as if I'' @ [CHR 0x27] @ ''m 5 years old.\<newline>''
        @ ''\<newline>''
        @ ''Use:\<newline>''
        @ ''- Everyday analogies and examples\<newline>''
        @ ''- Short, simple sentences\<newline>''
        @ ''- No jargon or technical terms\<newline>''
        @ ''- A fun, engaging tone'',
      t_variables = [''concept'']\<rparr>"

definition template_translate_text :: TemplateInfo where
  "template_translate_text =
     \<lparr>t_id = ''translate-text'',
      t_name = ''Translate Text'',
      t_category = translation,
      t_description = ''Translate text while preserving meaning and nuance'',
      t_template =
        ''Translate the following text from {source_language} to {target_language}:\<newline>''
        @ ''\<newline>''
        @ ''{text}\<newline>''
        @ ''\<newline>''
        @ ''Requirements:\<newline>''
        @ ''- Preserve the original meaning, tone, and nuance\<newline>''
        @ ''- Use natural phrasing in the target language\<newline>''
        @ ''- Note any cultural context that affects the translation\<newline>''
        @ ''- Flag any ambiguous phrases with alternative translations'',
      t_variables = [''source_language'', ''target_language'', ''text'']\<rparr>"

definition TEMPLATES :: "(string \<times> TemplateInfo) list" where
  "TEMPLATES =
     [(''code-write'', template_code_write),
      (''code-review'', template_code_review),
      (''code-debug'', template_code_debug),
      (''write-article'', template_write_article),
      (''write-email'', template_write_email),
      (''analyze-data'', template_analyze_data),
      (''compare-options'', template_compare_options),
      (''brainstorm-ideas'', template_brainstorm_ideas),
      (''summarize-text'', template_summarize_text),
      (''explain-concept'', template_explain_concept),
      (''eli5'', template_eli5),
      (''translate-text'', template_translate_text)]"

text \<open>\<open>get_template\<close>: the lookup \<open>TEMPLATES.get(template_id)\<close>.\<close>

definition get_template :: "string \<Rightarrow> TemplateInfo option" where
  "get_template template_id = map_of TEMPLATES template_id"

text \<open>The token \<open>"{" + var + "}"\<close>.\<close>

definition placeholder :: "string \<Rightarrow> string" where
  "placeholder var = ''{'' @ var @ ''}''"

text \<open>
  One round of the loop of \<open>render_template\<close>.  \<open>variables.get\<close> exists on a
  dictionary only, anything else raises \<open>AttributeError\<close>; \<open>str.replace\<close> raises
  \<open>TypeError\<close> when the value found is not a string.
\<close>

definition fill :: "pyval \<Rightarrow> string \<Rightarrow> string \<Rightarrow> error + string" where
  "fill variables result var =
     (case variables of
        PDict d \<Rightarrow>
          (case map_of d var of
             None \<Rightarrow> Inr (str_replace result (placeholder var) (''['' @ var @ '']''))
           | Some (PStr val) \<Rightarrow> Inr (str_replace result (placeholder var) val)
           | Some _ \<Rightarrow> Inl TypeError)
      | _ \<Rightarrow> Inl AttributeError)"

fun render_loop :: "pyval \<Rightarrow> string list \<Rightarrow> string \<Rightarrow> error + string" where
  "render_loop variables [] result = Inr result"
| "render_loop variables (var # vars) result =
     (case fill variables result var of
        Inl e \<Rightarrow> Inl e
      | Inr result' \<Rightarrow> render_loop variables vars result')"

text \<open>\<open>render_template\<close>; a \<open>TemplateInfo\<close> object is truthy, so \<open>not tmpl\<close> holds
  exactly when the lookup found nothing.\<close>

definition render_template :: "string \<Rightarrow> pyval \<Rightarrow> error + string" where
  "render_template template_id variables =
     (case map_of TEMPLATES template_id of
        None \<Rightarrow> Inl (ValueError (''Unknown template: '' @ template_id))
      | Some tmpl \<Rightarrow> render_loop variables (t_variables tmpl) (t_template tmpl))"

section \<open>History store (history.py)\<close>

text \<open>
  \<open>HistoryManager\<close>: \<open>entries\<close> is the in-memory list \<open>self._entries\<close>;
  \<open>stored\<close> is what the JSON file at \<open>self._path\<close> holds (\<open>None\<close>: no such file).
\<close>

record HistoryManager =
  entries :: "HistoryEntry list"
  stored :: "HistoryEntry list option"

text \<open>The manager built on a path where no file exists: \<open>_load\<close> leaves the list empty.\<close>

definition empty_store :: HistoryManager where
  "empty_store = \<lparr>entries = [], stored = None\<rparr>"

text \<open>\<open>_save\<close> rewrites the whole file from the in-memory list.\<close>

definition save :: "HistoryManager \<Rightarrow> HistoryManager" where
  "save hm = hm\<lparr>stored := Some (entries hm)\<rparr>"

text \<open>Python's \<open>max(iterable, default=d)\<close> on integers: a left-to-right scan.\<close>

fun max_default :: "int list \<Rightarrow> int \<Rightarrow> int" where
  "max_default [] d = d"
| "max_default (x # xs) d = foldl max x xs"

text \<open>\<open>HistoryManager.add\<close>; \<open>now\<close> is the value of \<open>datetime.now\<close> at the call.\<close>

definition add ::
  "string \<Rightarrow> string \<Rightarrow> TaskCategory \<Rightarrow> Tone \<Rightarrow> timestamp \<Rightarrow> HistoryManager
    \<Rightarrow> HistoryEntry \<times> HistoryManager" where
  "add original enhanced category tone now hm =
     (let next_id = max_default (map entry_id (entries hm)) 0 + 1;
          entry = \<lparr>entry_id = next_id, h_original = original, h_enhanced = enhanced,
                   h_category = category, h_tone = tone, h_timestamp = now,
                   starred = False\<rparr>
      in (entry, save (hm\<lparr>entries := entries hm @ [entry]\<rparr>)))"

text \<open>
  \<open>HistoryManager.star\<close>: the loop flips the flag of the first entry with the given id
  and returns at once; \<open>toggle_first\<close> is that loop, giving the entry and the new list.
\<close>

fun toggle_first :: "int \<Rightarrow> HistoryEntry list \<Rightarrow> (HistoryEntry \<times> HistoryEntry list) option" where
  "toggle_first i [] = None"
| "toggle_first i (e # es) =
     (if entry_id e = i
      then (let e' = e\<lparr>starred := \<not> starred e\<rparr> in Some (e', e' # es))
      else (case toggle_first i es of
              None \<Rightarrow> None
            | Some (r, es') \<Rightarrow> Some (r, e # es')))"

definition star :: "int \<Rightarrow> HistoryManager \<Rightarrow> HistoryEntry option \<times> HistoryManager" where
  "star i hm =
     (case toggle_first i (entries hm) of
        None \<Rightarrow> (None, hm)
      | Some (e, es) \<Rightarrow> (Some e, save (hm\<lparr>entries := es\<rparr>)))"

text \<open>\<open>HistoryManager.delete\<close>: the file is rewritten only when something was removed.\<close>

definition delete :: "int \<Rightarrow> HistoryManager \<Rightarrow> bool \<times> HistoryManager" where
  "delete i hm =
     (let before = length (entries hm);
          hm' = hm\<lparr>entries := filter (\<lambda>e. entry_id e \<noteq> i) (entries hm)\<rparr>
      in if length (entries hm') < before then (True, save hm') else (False, hm'))"

text \<open>\<open>HistoryManager.clear\<close> returns how many entries it removed.\<close>

definition clear :: "HistoryManager \<Rightarrow> nat \<times> HistoryManager" where
  "clear hm = (let n = length (entries hm) in (n, save (hm\<lparr>entries := []\<rparr>)))"

text \<open>The property \<open>HistoryManager.count\<close>.\<close>

definition count :: "HistoryManager \<Rightarrow> nat" where
  "count hm = length (entries hm)"

text \<open>
  The states of a store that starts empty and is then driven through its mutating
  operations, with any arguments.
\<close>

inductive reachable :: "HistoryManager \<Rightarrow> bool" where
  r_init: "reachable empty_store"
| r_add: "reachable hm \<Longrightarrow> reachable (snd (add original enhanced category tone now hm))"
| r_star: "reachable hm \<Longrightarrow> reachable (snd (star i hm))"
| r_delete: "reachable hm \<Longrightarrow> reachable (snd (delete i hm))"
| r_clear: "reachable hm \<Longrightarrow> reachable (snd (clear hm))"

section \<open>Orchestrator (engine.py)\<close>

text \<open>
  \<open>json.loads\<close> belongs to Python's library: it is a parameter \<open>json_loads\<close> here,
  a partial map from the text to the outcome of the call: \<open>None\<close> where
  \<open>json.loads\<close> raises \<open>JSONDecodeError\<close>, \<open>Some (Inr v)\<close> where it returns the
  value \<open>v\<close>, and \<open>Some (Inl e)\<close> where it raises another exception \<open>e\<close>
  (\<open>RecursionError\<close> on text nested too deep, a plain \<open>ValueError\<close> on an integer
  literal beyond the digit limit).  The \<open>except\<close> clause catches \<open>JSONDecodeError\<close>
  and \<open>TypeError\<close>; any other exception leaves \<open>process\<close>.

  \<open>resolve_base_prompt\<close> is step 1 of \<open>PromptEngine.process\<close>: the value of
  \<open>base_prompt\<close> after the template step, or the exception that \<open>json.loads\<close> or
  \<open>render_template\<close> raised.  \<open>if request.template_id\<close> holds for an id that is
  given and not empty; \<open>fallback\<close> is the dictionary of the \<open>except\<close> branch.
\<close>

definition resolve_base_prompt ::
  "(string \<rightharpoonup> (error + pyval)) \<Rightarrow> PromptRequest \<Rightarrow> error + string" where
  "resolve_base_prompt json_loads request =
     (let base_prompt = rq_raw_prompt request
      in case rq_template_id request of
           None \<Rightarrow> Inr base_prompt
         | Some template_id \<Rightarrow>
             if template_id = [] then Inr base_prompt
             else (let fallback = PDict [(''task_description'', PStr base_prompt),
                                         (''content'', PStr base_prompt)]
                   in case json_loads base_prompt of
                        None \<Rightarrow> render_template template_id fallback
                      | Some (Inr v) \<Rightarrow> render_template template_id v
                      | Some (Inl e) \<Rightarrow>
                          if e = TypeError then render_template template_id fallback
                          else Inl e))"

text \<open>
  \<open>PromptEngine.process\<close>, with the history manager passed in and returned;
  \<open>now_result\<close> and \<open>now_entry\<close> are the two readings of the clock, for the result
  and for the history entry.  An exception of step 1 leaves \<open>process\<close> at once.
\<close>

definition process ::
  "(string \<rightharpoonup> (error + pyval)) \<Rightarrow> timestamp \<Rightarrow> timestamp \<Rightarrow> PromptRequest \<Rightarrow> HistoryManager
    \<Rightarrow> error + (EnhancedPrompt \<times> HistoryManager)" where
  "process json_loads now_result now_entry request history =
     (case resolve_base_prompt json_loads request of
        Inl e \<Rightarrow> Inl e
      | Inr base_prompt \<Rightarrow>
          (let (enhanced_text, detected_category, techniques) =
                 (if rq_auto_enhance request
                  then enhance_prompt base_prompt (rq_tone request) (rq_category request)
                         (rq_context request)
                  else (let enhanced_text = base_prompt;
                            detected_category =
                              (case rq_category request of Some c \<Rightarrow> c | None \<Rightarrow> general);
                            techniques = [];
                            enhanced_text =
                              (case rq_context request of
                                 Some ctx \<Rightarrow>
                                   if ctx \<noteq> []
                                   then enhanced_text @ ''\<newline>\<newline>Additional context:\<newline>'' @ ctx
                                   else enhanced_text
                               | None \<Rightarrow> enhanced_text)
                        in (enhanced_text, detected_category, techniques)));
               result = \<lparr>ep_original = rq_raw_prompt request, ep_enhanced = enhanced_text,
                         ep_category = detected_category, ep_tone = rq_tone request,
                         ep_techniques_applied = techniques, ep_timestamp = now_result\<rparr>;
               (entry, history') =
                 add (ep_original result) (ep_enhanced result) (ep_category result)
                   (ep_tone result) now_entry history
           in Inr (result, history')))"

section \<open>The render algorithm as the specification words it\<close>

text \<open>
  The text that stands for a declared variable: the value supplied for it, or the
  bracketed marker \<open>[varname]\<close> when the mapping has none.
\<close>

definition supplied :: "(string \<times> string) list \<Rightarrow> string \<Rightarrow> string" where
  "supplied kvs var = (case map_of kvs var of Some val \<Rightarrow> val | None \<Rightarrow> ''['' @ var @ '']'')"

text \<open>
  \<open>spec_render\<close> follows the words of the specification, not the code: one pass over
  the blueprint from the left, in which every occurrence of the placeholder token of a
  declared variable is replaced by the text \<open>f\<close> gives for that variable, and every
  other character is kept.  What has been put in is not looked at again.
\<close>

function spec_render :: "string list \<Rightarrow> (string \<Rightarrow> string) \<Rightarrow> string \<Rightarrow> string" where
  "spec_render vars f [] = []"
| "spec_render vars f (c # cs) =
     (case find (\<lambda>v. prefix (placeholder v) (c # cs)) vars of
        Some v \<Rightarrow> f v @ spec_render vars f (drop (length (placeholder v)) (c # cs))
      | None \<Rightarrow> c # spec_render vars f cs)"
  by pat_completeness auto
termination
  by (relation "measure (\<lambda>(vars, f, s). length s)") (auto simp: placeholder_def)

text \<open>
  The invariant the specification states for a template: every placeholder of the
  blueprint is declared.  Here: no declared name has a brace in it, every opening brace
  of the blueprint starts the token of a declared variable, and what follows the token
  is the end of the blueprint or a character that is no brace and occurs in no declared
  name (\<open>separated\<close>): two tokens never touch.
\<close>

definition separated :: "string list \<Rightarrow> string \<Rightarrow> bool" where
  "separated vars rest =
     (case rest of
        [] \<Rightarrow> True
      | d # _ \<Rightarrow> d \<noteq> CHR ''{'' \<and> d \<noteq> CHR ''}'' \<and> list_all (\<lambda>v. d \<notin> set v) vars)"

fun placeholders_declared :: "string list \<Rightarrow> string \<Rightarrow> bool" where
  "placeholders_declared vars [] = True"
| "placeholders_declared vars (c # cs) =
     ((if c = CHR ''{''
       then list_ex (\<lambda>v. prefix (v @ ''}'') cs
                          \<and> separated vars (drop (length (v @ ''}'')) cs)) vars
       else True)
      \<and> placeholders_declared vars cs)"

definition brace_free :: "string \<Rightarrow> bool" where
  "brace_free s = (CHR ''{'' \<notin> set s \<and> CHR ''}'' \<notin> set s)"

definition well_formed :: "TemplateInfo \<Rightarrow> bool" where
  "well_formed tmpl =
     (list_all brace_free (t_variables tmpl)
      \<and> placeholders_declared (t_variables tmpl) (t_template tmpl))"

text \<open>
  The condition on the texts \<open>f\<close> gives for the declared variables, taken in their
  declared order: none of them contains the placeholder token of a variable declared
  after it.
\<close>

fun no_later_placeholder :: "(string \<Rightarrow> string) \<Rightarrow> string list \<Rightarrow> bool" where
  "no_later_placeholder f [] = True"
| "no_later_placeholder f (v # vars) =
     (list_all (\<lambda>u. \<not> contains (placeholder u) (f v)) vars \<and> no_later_placeholder f vars)"

section \<open>Properties of category detection\<close>

lemma inner_loop_nonneg:
  fixes sc :: "TaskCategory \<Rightarrow> int"
  shows "(\<And>c. 0 \<le> sc c) \<Longrightarrow>
     0 \<le> foldl (\<lambda>sc kw. if contains kw lower then sc(cat := sc cat + 1) else sc) sc kws c"
proof (induction kws arbitrary: sc)
  case Nil
  then show ?case by simp
next
  case (Cons kw kws)
  show ?case
  proof (cases "contains kw lower")
    case True
    have step: "0 \<le> (sc(cat := sc cat + 1)) c" for c
      using Cons.prems [of cat] Cons.prems [of c] by simp
    have "0 \<le> foldl (\<lambda>sc kw. if contains kw lower then sc(cat := sc cat + 1) else sc)
                  (sc(cat := sc cat + 1)) kws c"
      by (rule Cons.IH) (rule step)
    with True show ?thesis by simp
  next
    case False
    with Cons.IH [OF Cons.prems] show ?thesis by simp
  qed
qed

lemma count_keywords_nonneg:
  "(\<And>c. 0 \<le> sc c) \<Longrightarrow> 0 \<le> count_keywords lower sc entry c"
  by (cases entry) (simp add: count_keywords_def inner_loop_nonneg)

lemma outer_loop_nonneg:
  "(\<And>c. 0 \<le> sc c) \<Longrightarrow> 0 \<le> foldl (count_keywords lower) sc table c"
proof (induction table arbitrary: sc)
  case Nil
  then show ?case by simp
next
  case (Cons entry table)
  have "\<And>c. 0 \<le> count_keywords lower sc entry c"
    using Cons.prems by (rule count_keywords_nonneg)
  from Cons.IH [OF this] show ?case by simp
qed

lemma scores_nonneg: "0 \<le> scores lower c"
  unfolding scores_def by (rule outer_loop_nonneg) simp

lemma max_key_from_mem: "max_key_from key b xs \<in> insert b (set xs)"
  by (induction xs arbitrary: b) auto

lemma max_key_from_ge_start: "key b \<le> key (max_key_from key b xs)"
proof (induction xs arbitrary: b)
  case Nil
  show ?case by simp
next
  case (Cons x xs)
  have "key b \<le> key (if key b < key x then x else b)" by simp
  also have "\<dots> \<le> key (max_key_from key (if key b < key x then x else b) xs)"
    by (rule Cons.IH)
  finally show ?case by simp
qed

lemma max_key_from_ge: "x \<in> insert b (set xs) \<Longrightarrow> key x \<le> key (max_key_from key b xs)"
proof (induction xs arbitrary: b)
  case Nil
  then show ?case by simp
next
  case (Cons y ys)
  let ?b = "if key b < key y then y else b"
  consider "x = b" | "x = y" | "x \<in> set ys" using Cons.prems by auto
  then show ?case
  proof cases
    case 1
    have "key b \<le> key ?b" by simp
    also have "\<dots> \<le> key (max_key_from key ?b ys)" by (rule max_key_from_ge_start)
    finally show ?thesis using 1 by simp
  next
    case 2
    have "key y \<le> key ?b" by simp
    also have "\<dots> \<le> key (max_key_from key ?b ys)" by (rule max_key_from_ge_start)
    finally show ?thesis using 2 by simp
  next
    case 3
    then have "x \<in> insert ?b (set ys)" by simp
    from Cons.IH [OF this] show ?thesis by simp
  qed
qed

lemma category_listed:
  "c \<in> insert coding (set [writing, analysis, brainstorming, summarization, translation,
        debugging, explanation, general])"
  by (cases c) simp_all

lemma max_category_ge: "sc c \<le> sc (max_category sc)"
  unfolding max_category_def by (rule max_key_from_ge) (rule category_listed)

lemma max_category_strict:
  assumes "\<And>c'. c' \<noteq> c \<Longrightarrow> sc c' < sc c"
  shows "max_category sc = c"
proof (rule ccontr)
  assume "max_category sc \<noteq> c"
  then have "sc (max_category sc) < sc c" by (rule assms)
  moreover have "sc c \<le> sc (max_category sc)" by (rule max_category_ge)
  ultimately show False by simp
qed

text \<open>
  C3. With \<open>sc\<close> the keyword scores of the lower-cased text: \<open>detect_category\<close>
  returns \<open>debugging\<close> whenever debugging and coding both score above zero and
  debugging scores at least as much as coding; otherwise it returns the category whose
  score is strictly the highest, when there is one; and it returns \<open>general\<close> when
  every category scores zero.
\<close>

theorem detect_category_policy:
  "(0 < scores (str_lower text) debugging \<and> 0 < scores (str_lower text) coding
      \<and> scores (str_lower text) coding \<le> scores (str_lower text) debugging
     \<longrightarrow> detect_category text = debugging)
   \<and> (\<not> (0 < scores (str_lower text) debugging \<and> 0 < scores (str_lower text) coding
          \<and> scores (str_lower text) coding \<le> scores (str_lower text) debugging)
       \<and> (\<forall>c'. c' \<noteq> c \<longrightarrow> scores (str_lower text) c' < scores (str_lower text) c)
     \<longrightarrow> detect_category text = c)
   \<and> ((\<forall>c'. scores (str_lower text) c' = 0) \<longrightarrow> detect_category text = general)"
proof (intro conjI impI)
  assume "0 < scores (str_lower text) debugging \<and> 0 < scores (str_lower text) coding
      \<and> scores (str_lower text) coding \<le> scores (str_lower text) debugging"
  then show "detect_category text = debugging"
    by (simp add: detect_category_def Let_def)
next
  let ?sc = "scores (str_lower text)"
  assume a: "\<not> (0 < ?sc debugging \<and> 0 < ?sc coding \<and> ?sc coding \<le> ?sc debugging)
       \<and> (\<forall>c'. c' \<noteq> c \<longrightarrow> ?sc c' < ?sc c)"
  then have strict: "\<And>c'. c' \<noteq> c \<Longrightarrow> ?sc c' < ?sc c" by blast
  then have best: "max_category ?sc = c" by (rule max_category_strict)
  obtain c' where "c' \<noteq> c" by (cases c) auto
  then have "?sc c' < ?sc c" by (rule strict)
  moreover have "0 \<le> ?sc c'" by (rule scores_nonneg)
  ultimately have "0 < ?sc c" by simp
  moreover from a have "\<not> (0 < ?sc debugging \<and> 0 < ?sc coding \<and> ?sc coding \<le> ?sc debugging)"
    by (rule conjunct1)
  ultimately show "detect_category text = c"
    unfolding detect_category_def Let_def best by (simp only: if_False if_True)
next
  assume "\<forall>c'. scores (str_lower text) c' = 0"
  then show "detect_category text = general"
    by (simp add: detect_category_def Let_def)
qed

theorem detect_category_policy_witness:
  "scores (str_lower ''fix this error: TypeError in my code'') debugging = 2
   \<and> scores (str_lower ''fix this error: TypeError in my code'') coding = 2
   \<and> detect_category ''fix this error: TypeError in my code'' = debugging
   \<and> scores (str_lower ''explain how neural networks work'') explanation = 1
   \<and> detect_category ''explain how neural networks work'' = explanation
   \<and> scores (str_lower ''hello world'') coding = 0
   \<and> detect_category ''hello world'' = general"
proof -
  let ?a = "''fix this error: TypeError in my code''"
  let ?b = "''explain how neural networks work''"
  let ?c = "''hello world''"
  have a: "scores (str_lower ?a) debugging = 2" "scores (str_lower ?a) coding = 2"
    by code_simp+
  have b: "scores (str_lower ?b) coding = 0" "scores (str_lower ?b) writing = 0"
    "scores (str_lower ?b) analysis = 0" "scores (str_lower ?b) brainstorming = 0"
    "scores (str_lower ?b) summarization = 0" "scores (str_lower ?b) translation = 0"
    "scores (str_lower ?b) debugging = 0" "scores (str_lower ?b) explanation = 1"
    "scores (str_lower ?b) general = 0"
    by code_simp+
  have c: "scores (str_lower ?c) coding = 0" "scores (str_lower ?c) writing = 0"
    "scores (str_lower ?c) analysis = 0" "scores (str_lower ?c) brainstorming = 0"
    "scores (str_lower ?c) summarization = 0" "scores (str_lower ?c) translation = 0"
    "scores (str_lower ?c) debugging = 0" "scores (str_lower ?c) explanation = 0"
    "scores (str_lower ?c) general = 0"
    by code_simp+
  have b_strict: "\<forall>c'. c' \<noteq> explanation
      \<longrightarrow> scores (str_lower ?b) c' < scores (str_lower ?b) explanation"
  proof (intro allI impI)
    fix c' :: TaskCategory
    assume "c' \<noteq> explanation"
    then show "scores (str_lower ?b) c' < scores (str_lower ?b) explanation"
      by (cases c') (simp_all only: b, simp_all)
  qed
  have c_zero: "\<forall>c'. scores (str_lower ?c) c' = 0"
  proof
    fix c' :: TaskCategory
    show "scores (str_lower ?c) c' = 0" by (cases c') (simp_all only: c)
  qed
  have "detect_category ?a = debugging"
    using detect_category_policy [of ?a general] a by simp
  moreover have "detect_category ?b = explanation"
    using detect_category_policy [of ?b explanation] b b_strict by simp
  moreover have "detect_category ?c = general"
    using detect_category_policy [of ?c general] c_zero by blast
  ultimately show ?thesis using a b c by simp
qed

section \<open>Properties of the enhancement pipeline\<close>

lemma add_role_framing_parts:
  "fst (add_role_framing p c) = roles c @ ''\<newline>\<newline>'' @ p"
  "snd (add_role_framing p c) = True"
  by (simp_all add: add_role_framing_def)

lemma add_quality_guardrails_applied: "snd (add_quality_guardrails p) = True"
  by (simp add: add_quality_guardrails_def)

lemma add_structure_request_applied:
  "snd (add_structure_request p c) = (c \<notin> {translation, general})"
  by (cases c) (simp_all add: add_structure_request_def)

lemma enhance_prompt_category:
  "fst (snd (enhance_prompt raw_prompt tone category extra_context))
     = (case category of Some c \<Rightarrow> c | None \<Rightarrow> detect_category raw_prompt)"
  unfolding enhance_prompt_def Let_def split_beta by (simp only: fst_conv snd_conv)

lemma enhance_prompt_techniques:
  "snd (snd (enhance_prompt raw_prompt tone category extra_context)) =
     [''role_framing'', ''tone_styling'']
     @ (if snd (add_specificity
                 (roles (fst (snd (enhance_prompt raw_prompt tone category extra_context)))
                    @ ''\<newline>\<newline>'' @ strip_ws raw_prompt
                    @ ''\<newline>\<newline>'' @ get_tone_instruction tone)
                 (length (split_ws raw_prompt)))
        then [''specificity_boost''] else [])
     @ (if fst (snd (enhance_prompt raw_prompt tone category extra_context)) \<notin> {translation, general}
        then [''structure_guidance''] else [])
     @ (if extra_context \<noteq> None \<and> extra_context \<noteq> Some [] then [''context_injection''] else [])
     @ [''quality_guardrails'']"
proof -
  define detected where
    "detected = (case category of Some c \<Rightarrow> c | None \<Rightarrow> detect_category raw_prompt)"
  have d: "fst (snd (enhance_prompt raw_prompt tone category extra_context)) = detected"
    by (simp only: enhance_prompt_category detected_def)
  define sb where "sb = snd (add_specificity
                 (roles detected @ ''\<newline>\<newline>'' @ strip_ws raw_prompt
                    @ ''\<newline>\<newline>'' @ get_tone_instruction tone)
                 (length (split_ws raw_prompt)))"
  define sg where "sg = (detected \<notin> {translation, general})"
  have "snd (snd (enhance_prompt raw_prompt tone category extra_context)) =
     [''role_framing'', ''tone_styling'']
     @ (if sb then [''specificity_boost''] else [])
     @ (if sg then [''structure_guidance''] else [])
     @ (if extra_context \<noteq> None \<and> extra_context \<noteq> Some [] then [''context_injection''] else [])
     @ [''quality_guardrails'']"
    unfolding enhance_prompt_def Let_def split_beta detected_def [symmetric]
      add_role_framing_parts add_quality_guardrails_applied add_structure_request_applied
      append_assoc sb_def [symmetric] sg_def [symmetric]
    by (cases extra_context; cases sb; cases sg;
        simp only: fst_conv snd_conv if_True if_False append_Nil append_Cons
          option.case option.distinct option.inject not_False_eq_True simp_thms split: if_splits)
       blast+
  then show ?thesis unfolding d sb_def sg_def .
qed


text \<open>
  C4. The techniques list of \<open>enhance_prompt\<close> is \<open>role_framing\<close>,
  \<open>tone_styling\<close>, then \<open>specificity_boost\<close> (only when the raw input has fewer
  than 8 words), then \<open>structure_guidance\<close> (exactly when the resolved category has a
  structure hint: every category but translation and general), then
  \<open>context_injection\<close> (exactly when a non-empty context is given), then
  \<open>quality_guardrails\<close>; the first two and the last are always there.
\<close>

theorem techniques_in_application_order:
  "\<exists>sb. snd (snd (enhance_prompt raw_prompt tone category extra_context)) =
     [''role_framing'', ''tone_styling'']
     @ (if sb then [''specificity_boost''] else [])
     @ (if fst (snd (enhance_prompt raw_prompt tone category extra_context)) \<notin> {translation, general}
        then [''structure_guidance''] else [])
     @ (if extra_context \<noteq> None \<and> extra_context \<noteq> Some [] then [''context_injection''] else [])
     @ [''quality_guardrails'']
    \<and> (sb \<longrightarrow> length (split_ws raw_prompt) < 8)"
proof -
  let ?sb = "snd (add_specificity
                 (roles (fst (snd (enhance_prompt raw_prompt tone category extra_context)))
                    @ ''\<newline>\<newline>'' @ strip_ws raw_prompt
                    @ ''\<newline>\<newline>'' @ get_tone_instruction tone)
                 (length (split_ws raw_prompt)))"
  have "?sb \<longrightarrow> length (split_ws raw_prompt) < 8"
    by (cases "0 < length (split_ws raw_prompt)") (simp_all add: add_specificity_def Let_def)
  with enhance_prompt_techniques [of raw_prompt tone category extra_context]
  show ?thesis by blast
qed

theorem techniques_in_application_order_witness:
  "snd (snd (enhance_prompt ''explain recursion'' professional None None))
     = [''role_framing'', ''tone_styling'', ''specificity_boost'', ''structure_guidance'',
        ''quality_guardrails'']
   \<and> length (split_ws ''explain recursion'') < 8"
proof -
  have run: "snd (snd (enhance_prompt ''explain recursion'' professional None None))
     = [''role_framing'', ''tone_styling'', ''specificity_boost'', ''structure_guidance'',
        ''quality_guardrails'']"
    by code_simp
  from techniques_in_application_order [of "''explain recursion''" professional None None]
  obtain sb where
    sb: "snd (snd (enhance_prompt ''explain recursion'' professional None None)) =
     [''role_framing'', ''tone_styling'']
     @ (if sb then [''specificity_boost''] else [])
     @ (if fst (snd (enhance_prompt ''explain recursion'' professional None None))
            \<notin> {translation, general}
        then [''structure_guidance''] else [])
     @ (if (None :: string option) \<noteq> None \<and> (None :: string option) \<noteq> Some []
        then [''context_injection''] else [])
     @ [''quality_guardrails'']"
    and short: "sb \<longrightarrow> length (split_ws ''explain recursion'') < 8"
    by blast
  have "sb"
  proof (rule ccontr)
    assume "\<not> sb"
    with sb run show False by (simp split: if_splits)
  qed
  with short run show ?thesis by blast
qed

lemma add_specificity_prefix: "prefix p (fst (add_specificity p n))"
  by (simp add: add_specificity_def Let_def)

lemma add_structure_request_prefix: "prefix p (fst (add_structure_request p c))"
  by (simp add: add_structure_request_def split: option.splits)

lemma add_quality_guardrails_prefix: "prefix p (fst (add_quality_guardrails p))"
  by (simp add: add_quality_guardrails_def)

lemma context_injection_prefix:
  "prefix p (fst (case extra_context of
                Some ctx \<Rightarrow>
                  if ctx \<noteq> []
                  then (p @ ''\<newline>\<newline>Additional context:\<newline>'' @ ctx, t @ [tag])
                  else (p, t)
              | None \<Rightarrow> (p, t)))"
  by (simp split: option.splits)

lemma enhance_prompt_prefix:
  "prefix (roles (fst (snd (enhance_prompt raw_prompt tone category extra_context)))
             @ ''\<newline>\<newline>'' @ strip_ws raw_prompt)
     (fst (enhance_prompt raw_prompt tone category extra_context))"
proof -
  define detected where
    "detected = (case category of Some c \<Rightarrow> c | None \<Rightarrow> detect_category raw_prompt)"
  define p0 where "p0 = roles detected @ ''\<newline>\<newline>'' @ strip_ws raw_prompt"
  have d: "fst (snd (enhance_prompt raw_prompt tone category extra_context)) = detected"
    by (simp only: enhance_prompt_category detected_def)
  have "prefix p0 (fst (enhance_prompt raw_prompt tone category extra_context))"
    unfolding enhance_prompt_def Let_def split_beta detected_def [symmetric]
      add_role_framing_parts p0_def [symmetric] fst_conv
    apply (rule prefix_order.trans [OF _ add_quality_guardrails_prefix])
    apply (rule prefix_order.trans [OF _ context_injection_prefix])
    apply (rule prefix_order.trans [OF _ add_structure_request_prefix])
    apply (rule prefix_order.trans [OF _ add_specificity_prefix])
    apply (rule prefixI)
    apply (rule refl)
    done
  then show ?thesis unfolding d p0_def .
qed

text \<open>
  C10. The enhanced text of \<open>enhance_prompt\<close> contains the raw input, stripped of
  leading and trailing whitespace, as a contiguous substring: the role sentence comes
  before it and everything else after it.
\<close>

theorem enhanced_contains_stripped_input:
  "sublist (strip_ws raw_prompt) (fst (enhance_prompt raw_prompt tone category extra_context))"
proof -
  from enhance_prompt_prefix [of raw_prompt tone category extra_context]
  obtain rest where
    "fst (enhance_prompt raw_prompt tone category extra_context)
       = (roles (fst (snd (enhance_prompt raw_prompt tone category extra_context)))
           @ ''\<newline>\<newline>'') @ strip_ws raw_prompt @ rest"
    by (auto simp: prefix_def)
  then show ?thesis by (simp only: sublist_appendI)
qed

text \<open>
  What the code does with the specificity boost on every input: it is applied exactly when
  the raw input has between 1 and 7 words.  A raw input without any word is stripped to
  the empty string, and the framed prompt that is counted instead has at least 8 words
  for every category and tone.
\<close>

lemma split_acc_Nil_iff: "split_acc w s = [] \<longleftrightarrow> w = [] \<and> (\<forall>c \<in> set s. is_space c)"
  by (induction s arbitrary: w) auto

lemma dropWhile_all: "(\<forall>c \<in> set s. P c) \<Longrightarrow> dropWhile P s = []"
  by (induction s) simp_all

lemma strip_ws_blank:
  assumes "split_ws s = []"
  shows "strip_ws s = []"
proof -
  from assms have "\<forall>c \<in> set s. is_space c"
    by (simp add: split_ws_def split_acc_Nil_iff)
  then have "dropWhile is_space s = []" by (rule dropWhile_all)
  then show ?thesis by (simp only: strip_ws_def rev.simps dropWhile.simps)
qed

lemma framed_blank_word_count:
  "8 \<le> length (split_ws (roles c @ ''\<newline>\<newline>'' @ [] @ ''\<newline>\<newline>'' @ get_tone_instruction t))"
  by (cases c; cases t; hypsubst; code_simp)

lemma specificity_boost_iff:
  "''specificity_boost'' \<in> set (snd (snd (enhance_prompt raw_prompt tone category extra_context)))
     \<longleftrightarrow> 0 < length (split_ws raw_prompt) \<and> length (split_ws raw_prompt) < 8"
proof -
  let ?c = "fst (snd (enhance_prompt raw_prompt tone category extra_context))"
  let ?framed = "roles ?c @ ''\<newline>\<newline>'' @ strip_ws raw_prompt
                    @ ''\<newline>\<newline>'' @ get_tone_instruction tone"
  let ?sb = "snd (add_specificity ?framed (length (split_ws raw_prompt)))"
  have "''specificity_boost'' \<in> set (snd (snd (enhance_prompt raw_prompt tone category extra_context)))
          \<longleftrightarrow> ?sb"
    by (subst enhance_prompt_techniques) simp
  also have "?sb \<longleftrightarrow> 0 < length (split_ws raw_prompt) \<and> length (split_ws raw_prompt) < 8"
  proof (cases "0 < length (split_ws raw_prompt)")
    case True
    then show ?thesis by (simp add: add_specificity_def Let_def)
  next
    case False
    then have "strip_ws raw_prompt = []" by (simp add: strip_ws_blank)
    then have "8 \<le> length (split_ws ?framed)"
      using framed_blank_word_count [of ?c tone] by simp
    with False show ?thesis by (simp add: add_specificity_def Let_def)
  qed
  finally show ?thesis .
qed

text \<open>
  C2. The specificity boost is to be applied exactly when the raw input has fewer than 8
  words.  On the input of one space the raw input has no word at all, and the boost is
  not applied: the count 0 makes \<open>add_specificity\<close> count the words of the framed
  prompt instead.
\<close>

theorem specificity_missing_on_blank_input:
  "length (split_ws '' '') < 8
   \<and> ''specificity_boost'' \<notin> set (snd (snd (enhance_prompt '' '' professional None None)))"
  by code_simp

section \<open>Properties of the history store\<close>

lemma foldl_max_ge: "(a::int) \<le> foldl max a xs"
proof (induction xs arbitrary: a)
  case Nil
  show ?case by simp
next
  case (Cons x xs)
  have "a \<le> max a x" by simp
  also have "\<dots> \<le> foldl max (max a x) xs" by (rule Cons.IH)
  finally show ?case by simp
qed

lemma foldl_max_Max: "foldl max (a::int) xs = Max (insert a (set xs))"
proof (induction xs arbitrary: a)
  case Nil
  show ?case by simp
next
  case (Cons x xs)
  have "foldl max a (x # xs) = Max (insert (max a x) (set xs))"
    by (simp add: Cons.IH)
  also have "\<dots> = Max (insert a (insert x (set xs)))"
    by (cases "set xs = {}") (simp_all add: max.assoc)
  finally show ?case by simp
qed

lemma max_default_Max:
  "max_default xs 0 = (if xs = [] then 0 else Max (set xs))"
  by (cases xs) (simp_all add: foldl_max_Max)

lemma max_default_upper: "x \<in> set xs \<Longrightarrow> x \<le> max_default xs d"
  by (cases xs) (auto simp: foldl_max_Max)

lemma sorted_wrt_snoc_less:
  fixes xs :: "int list"
  assumes "sorted_wrt (<) xs" and "\<forall>x \<in> set xs. x < y"
  shows "sorted_wrt (<) (xs @ [y])"
  using assms by (simp add: sorted_wrt_append)

lemma toggle_first_ids:
  "toggle_first i es = Some (r, es') \<Longrightarrow> map entry_id es' = map entry_id es"
  by (induction es arbitrary: es') (auto split: if_splits option.splits simp: Let_def)

lemma ids_after_add:
  "map entry_id (entries (snd (add original enhanced category tone now hm)))
     = map entry_id (entries hm) @ [max_default (map entry_id (entries hm)) 0 + 1]"
  by (simp add: add_def save_def Let_def)

lemma ids_after_star: "map entry_id (entries (snd (star i hm))) = map entry_id (entries hm)"
  by (auto simp: star_def save_def toggle_first_ids split: option.splits)

lemma ids_after_delete:
  "map entry_id (entries (snd (delete i hm))) = filter (\<lambda>k. k \<noteq> i) (map entry_id (entries hm))"
  by (simp add: delete_def save_def Let_def filter_map comp_def)

lemma increasing_add:
  assumes "sorted_wrt (<) (map entry_id (entries hm))"
  shows "sorted_wrt (<) (map entry_id (entries (snd (add original enhanced category tone now hm))))"
proof -
  let ?ids = "map entry_id (entries hm)"
  have "\<forall>x \<in> set ?ids. x < max_default ?ids 0 + 1"
    using max_default_upper [of _ ?ids 0] by fastforce
  with assms have "sorted_wrt (<) (?ids @ [max_default ?ids 0 + 1])"
    by (rule sorted_wrt_snoc_less)
  then show ?thesis by (simp only: ids_after_add)
qed

lemma increasing_delete:
  assumes "sorted_wrt (<) (map entry_id (entries hm))"
  shows "sorted_wrt (<) (map entry_id (entries (snd (delete i hm))))"
  using assms by (simp only: ids_after_delete sorted_wrt_filter)

lemma reachable_increasing:
  "reachable hm \<Longrightarrow> sorted_wrt (<) (map entry_id (entries hm))"
proof (induction rule: reachable.induct)
  case r_init
  show ?case by (simp add: empty_store_def)
next
  case (r_add hm original enhanced category tone now)
  then show ?case by (simp only: increasing_add)
next
  case (r_star hm i)
  then show ?case by (simp only: ids_after_star)
next
  case (r_delete hm i)
  then show ?case by (simp only: increasing_delete)
next
  case (r_clear hm)
  show ?case by (simp add: clear_def save_def Let_def)
qed

text \<open>
  C5. On every store, \<open>add\<close> gives the new entry the id \<open>m + 1\<close>, where \<open>m\<close> is the
  largest id in the store, or 0 when the store is empty, and the count grows by exactly
  one; after \<open>clear\<close> the count is 0 and the next \<open>add\<close> gives id 1.
\<close>

theorem add_assigns_next_id_and_clear_resets:
  "entry_id (fst (add original enhanced category tone now hm))
      = (if entries hm = [] then 0 else Max (entry_id ` set (entries hm))) + 1
   \<and> count (snd (add original enhanced category tone now hm)) = count hm + 1
   \<and> last (entries (snd (add original enhanced category tone now hm)))
        = fst (add original enhanced category tone now hm)
   \<and> count (snd (clear hm)) = 0
   \<and> entry_id (fst (add original' enhanced' category' tone' now' (snd (clear hm)))) = 1"
proof -
  have "max_default (map entry_id (entries hm)) 0
          = (if entries hm = [] then 0 else Max (entry_id ` set (entries hm)))"
    by (simp add: max_default_Max)
  then have "entry_id (fst (add original enhanced category tone now hm))
      = (if entries hm = [] then 0 else Max (entry_id ` set (entries hm))) + 1"
    by (simp add: add_def Let_def)
  moreover have "count (snd (add original enhanced category tone now hm)) = count hm + 1"
    by (simp add: add_def count_def save_def Let_def)
  moreover have "last (entries (snd (add original enhanced category tone now hm)))
        = fst (add original enhanced category tone now hm)"
    by (simp add: add_def save_def Let_def)
  moreover have "count (snd (clear hm)) = 0"
    by (simp add: clear_def count_def save_def Let_def)
  moreover have
    "entry_id (fst (add original' enhanced' category' tone' now' (snd (clear hm)))) = 1"
    by (simp add: add_def clear_def save_def Let_def)
  ultimately show ?thesis by blast
qed

text \<open>
  C9. In every state that the store reaches from the empty store through \<open>add\<close>,
  \<open>star\<close>, \<open>delete\<close> and \<open>clear\<close>, the ids of the in-memory list are strictly
  increasing, hence pairwise distinct.
\<close>

theorem reachable_ids_strictly_increasing:
  assumes "reachable hm"
  shows "sorted_wrt (<) (map entry_id (entries hm)) \<and> distinct (map entry_id (entries hm))"
proof -
  have inc: "sorted_wrt (<) (map entry_id (entries hm))"
    using assms by (rule reachable_increasing)
  then have "distinct (map entry_id (entries hm))"
    by (simp add: strict_sorted_iff)
  with inc show ?thesis by simp
qed

theorem reachable_ids_strictly_increasing_witness:
  "reachable (snd (add ''b'' ''B'' writing casual 2 (snd (add ''a'' ''A'' coding professional 1 empty_store))))
   \<and> map entry_id (entries (snd (add ''b'' ''B'' writing casual 2
         (snd (add ''a'' ''A'' coding professional 1 empty_store))))) = [1, 2]
   \<and> sorted_wrt (<) (map entry_id (entries (snd (add ''b'' ''B'' writing casual 2
         (snd (add ''a'' ''A'' coding professional 1 empty_store))))))
   \<and> distinct (map entry_id (entries (snd (add ''b'' ''B'' writing casual 2
         (snd (add ''a'' ''A'' coding professional 1 empty_store))))))"
proof -
  have r: "reachable (snd (add ''b'' ''B'' writing casual 2
             (snd (add ''a'' ''A'' coding professional 1 empty_store))))"
    by (intro r_add r_init)
  have ids: "map entry_id (entries (snd (add ''b'' ''B'' writing casual 2
         (snd (add ''a'' ''A'' coding professional 1 empty_store))))) = [1, 2]"
    by (simp add: add_def save_def empty_store_def Let_def)
  from r ids reachable_ids_strictly_increasing [OF r] show ?thesis by blast
qed

section \<open>Properties of template rendering\<close>

lemma placeholder_Cons: "placeholder v = CHR ''{'' # v @ ''}''"
  by (simp add: placeholder_def)

lemma str_replace_empty: "str_replace [] (placeholder v) new = []"
  by (simp add: placeholder_Cons)

lemma str_replace_hit:
  assumes "prefix (placeholder v) s"
  shows "str_replace s (placeholder v) new
           = new @ str_replace (drop (length (placeholder v)) s) (placeholder v) new"
proof (cases s)
  case Nil
  with assms show ?thesis by (simp add: placeholder_Cons)
next
  case (Cons c cs)
  with assms show ?thesis unfolding placeholder_Cons by simp
qed

lemma str_replace_miss:
  assumes "\<not> prefix (placeholder v) (c # cs)"
  shows "str_replace (c # cs) (placeholder v) new = c # str_replace cs (placeholder v) new"
  using assms unfolding placeholder_Cons by auto

lemma find_snoc:
  "find P (xs @ [y]) = (case find P xs of Some x \<Rightarrow> Some x | None \<Rightarrow> if P y then Some y else None)"
  by (induction xs) simp_all

lemma no_token_without_brace:
  "c \<noteq> CHR ''{'' \<Longrightarrow> \<not> prefix (placeholder v) (c # cs)"
  by (simp add: placeholder_Cons)

lemma str_replace_pass:
  assumes "\<not> contains (placeholder v) a"
    and "b = [] \<or> (hd b \<noteq> CHR ''}'' \<and> hd b \<notin> set v)"
  shows "str_replace (a @ b) (placeholder v) new = a @ str_replace b (placeholder v) new"
  using assms(1)
proof (induction a)
  case Nil
  show ?case by simp
next
  case (Cons c a)
  from Cons.prems have no_prefix: "\<not> prefix (placeholder v) (c # a)"
    and no_inner: "\<not> contains (placeholder v) a"
    by simp_all
  have "\<not> prefix (placeholder v) (c # (a @ b))"
  proof
    assume "prefix (placeholder v) (c # (a @ b))"
    then have "prefix (placeholder v) ((c # a) @ b)" by simp
    then obtain us where us: "placeholder v = (c # a) @ us" and pb: "prefix us b"
      using no_prefix unfolding prefix_append by blast
    have "us \<noteq> []"
    proof
      assume "us = []"
      with us have "prefix (placeholder v) (c # a)" by simp
      with no_prefix show False by contradiction
    qed
    with pb have b: "b \<noteq> []" "hd b = hd us" by (auto simp: prefix_def)
    from us have "v @ ''}'' = a @ us" by (simp add: placeholder_Cons)
    then have "set us \<subseteq> set (v @ ''}'')" by (metis set_append Un_upper2)
    with \<open>us \<noteq> []\<close> have "hd us \<in> set (v @ ''}'')" by (meson hd_in_set subsetD)
    then have "hd b = CHR ''}'' \<or> hd b \<in> set v" using b by auto
    with assms(2) b show False by blast
  qed
  then have "str_replace (c # (a @ b)) (placeholder v) new
               = c # str_replace (a @ b) (placeholder v) new"
    by (rule str_replace_miss)
  with Cons.IH [OF no_inner] show ?case by simp
qed

lemma find_no_token:
  "c \<noteq> CHR ''{'' \<Longrightarrow> find (\<lambda>v. prefix (placeholder v) (c # cs)) vars = None"
  by (simp add: find_None_iff no_token_without_brace)

lemma spec_render_head:
  assumes "rest = [] \<or> hd rest \<noteq> CHR ''{''"
  shows "spec_render V f rest = [] \<and> rest = []
         \<or> (rest \<noteq> [] \<and> spec_render V f rest \<noteq> [] \<and> hd (spec_render V f rest) = hd rest)"
proof (cases rest)
  case Nil
  then show ?thesis by simp
next
  case (Cons d ds)
  with assms have "d \<noteq> CHR ''{''" by simp
  then have "find (\<lambda>v. prefix (placeholder v) (d # ds)) V = None" by (rule find_no_token)
  then show ?thesis unfolding Cons by simp
qed

lemma spec_render_skip:
  "CHR ''{'' \<notin> set a \<Longrightarrow> spec_render vars f (a @ b) = a @ spec_render vars f b"
proof (induction a)
  case Nil
  show ?case by simp
next
  case (Cons c a)
  then have "c \<noteq> CHR ''{''" by auto
  then have "find (\<lambda>v. prefix (placeholder v) (c # (a @ b))) vars = None"
    by (rule find_no_token)
  with Cons show ?case by simp
qed

lemma spec_render_no_vars: "spec_render [] f s = s"
  by (induction s) simp_all

lemma token_unique:
  assumes "CHR ''}'' \<notin> set v" and "CHR ''}'' \<notin> set u"
    and "prefix (v @ ''}'') (u @ ''}'' @ rest)"
  shows "v = u"
  using assms
proof (induction v arbitrary: u)
  case Nil
  then show ?case by (cases u) auto
next
  case (Cons x v)
  show ?case
  proof (cases u)
    case Nil
    with Cons.prems show ?thesis by auto
  next
    case (Cons y u')
    with Cons.prems Cons.IH [of u'] show ?thesis by auto
  qed
qed

lemma placeholders_declared_suffix:
  "placeholders_declared D (a @ b) \<Longrightarrow> placeholders_declared D b"
  by (induction a) auto

lemma placeholders_declared_drop:
  assumes "placeholders_declared D s"
  shows "placeholders_declared D (drop n s)"
proof -
  have "placeholders_declared D (take n s @ drop n s)" using assms by simp
  then show ?thesis by (rule placeholders_declared_suffix)
qed

lemma replace_after_render:
  assumes names: "list_all brace_free D"
    and V: "set V \<subseteq> set D" and v: "v \<in> set D"
    and vals: "\<forall>w \<in> set V. \<not> contains (placeholder v) (f w)"
  shows "placeholders_declared D s \<Longrightarrow>
         str_replace (spec_render V f s) (placeholder v) (f v) = spec_render (V @ [v]) f s"
proof (induction s rule: length_induct)
  case (1 s)
  note IH = "1.IH" [rule_format]
  have v_free: "CHR ''{'' \<notin> set v" "CHR ''}'' \<notin> set v"
    using names v by (auto simp: list_all_iff brace_free_def)
  show ?case
  proof (cases s)
    case Nil
    then show ?thesis by (simp add: str_replace_empty)
  next
    case (Cons c cs)
    let ?hit = "\<lambda>t w. prefix (placeholder w) t"
    show ?thesis
    proof (cases "find (\<lambda>w. prefix (placeholder w) s) V")
      case (Some w)
      define rest where "rest = drop (length (placeholder w)) s"
      have "w \<in> set V" using Some by (auto simp: find_Some_iff in_set_conv_nth)
      then have wD: "w \<in> set D" using V by auto
      from \<open>w \<in> set V\<close> have fw: "\<not> contains (placeholder v) (f w)" using vals by auto
      have w_free: "CHR ''}'' \<notin> set w"
        using names wD by (auto simp: list_all_iff brace_free_def)
      have hit: "prefix (placeholder w) s" using Some by (auto simp: find_Some_iff)
      then have c: "c = CHR ''{''" and hit_cs: "prefix (w @ ''}'') cs"
        unfolding Cons placeholder_Cons by simp_all
      from "1.prems" c obtain u where u: "u \<in> set D" and pu: "prefix (u @ ''}'') cs"
        and sep_u: "separated D (drop (length (u @ ''}'')) cs)"
        unfolding Cons by (auto simp: list_ex_iff)
      have u_free: "CHR ''}'' \<notin> set u"
        using names u by (auto simp: list_all_iff brace_free_def)
      from pu obtain r where "cs = u @ ''}'' @ r" by (auto simp: prefix_def)
      with hit_cs have "prefix (w @ ''}'') (u @ ''}'' @ r)" by simp
      with w_free u_free have "w = u" by (intro token_unique)
      have rest_cs: "rest = drop (length (w @ ''}'')) cs"
        unfolding rest_def Cons by (simp add: placeholder_Cons)
      with sep_u \<open>w = u\<close> have sep: "separated D rest" by simp
      have rest_head: "rest = [] \<or> (hd rest \<noteq> CHR ''{'' \<and> hd rest \<noteq> CHR ''}'' \<and> hd rest \<notin> set v)"
      proof (cases rest)
        case Nil
        then show ?thesis by simp
      next
        case (Cons d ds)
        with sep have "d \<noteq> CHR ''{''" "d \<noteq> CHR ''}''" "list_all (\<lambda>x. d \<notin> set x) D"
          by (simp_all add: separated_def)
        with v show ?thesis unfolding Cons by (auto simp: list_all_iff)
      qed
      then have "rest = [] \<or> hd rest \<noteq> CHR ''{''" by blast
      from spec_render_head [OF this, of V f] rest_head
      have out_head: "spec_render V f rest = []
          \<or> (hd (spec_render V f rest) \<noteq> CHR ''}'' \<and> hd (spec_render V f rest) \<notin> set v)"
        by auto
      have shorter: "length rest < length s"
        unfolding rest_def Cons by (simp add: placeholder_Cons)
      have decl: "placeholders_declared D rest"
        unfolding rest_def using "1.prems" by (rule placeholders_declared_drop)
      have l: "spec_render V f s = f w @ spec_render V f rest"
        using Some unfolding Cons rest_def by simp
      have "find (\<lambda>w. prefix (placeholder w) s) (V @ [v]) = Some w"
        using Some by (simp add: find_snoc)
      then have r: "spec_render (V @ [v]) f s = f w @ spec_render (V @ [v]) f rest"
        unfolding Cons rest_def by simp
      have "str_replace (spec_render V f s) (placeholder v) (f v)
              = f w @ str_replace (spec_render V f rest) (placeholder v) (f v)"
        unfolding l using fw out_head by (rule str_replace_pass)
      also have "\<dots> = f w @ spec_render (V @ [v]) f rest"
        using IH [OF shorter decl] by simp
      finally show ?thesis using r by simp
    next
      case None
      have l: "spec_render V f s = c # spec_render V f cs"
        using None unfolding Cons by simp
      have decl_cs: "placeholders_declared D cs"
        using "1.prems" unfolding Cons by simp
      have IH_cs: "str_replace (spec_render V f cs) (placeholder v) (f v)
                     = spec_render (V @ [v]) f cs"
        using IH [of cs] decl_cs unfolding Cons by simp
      show ?thesis
      proof (cases "prefix (placeholder v) s")
        case True
        define rest where "rest = drop (length (placeholder v)) s"
        have s_eq: "s = placeholder v @ rest"
          using True unfolding rest_def by (auto simp: prefix_def)
        then have c_cs: "c = CHR ''{''" "cs = (v @ ''}'') @ rest"
          unfolding Cons placeholder_Cons by simp_all
        have shorter: "length rest < length s"
          unfolding rest_def Cons by (simp add: placeholder_Cons)
        have decl: "placeholders_declared D rest"
          unfolding rest_def using "1.prems" by (rule placeholders_declared_drop)
        have "spec_render V f cs = (v @ ''}'') @ spec_render V f rest"
          unfolding c_cs using v_free by (intro spec_render_skip) simp
        then have "spec_render V f s = placeholder v @ spec_render V f rest"
          unfolding l c_cs placeholder_Cons by simp
        then have "str_replace (spec_render V f s) (placeholder v) (f v)
                = f v @ str_replace (spec_render V f rest) (placeholder v) (f v)"
          by (simp add: str_replace_hit)
        also have "\<dots> = f v @ spec_render (V @ [v]) f rest"
          using IH [OF shorter decl] by simp
        finally have lhs: "str_replace (spec_render V f s) (placeholder v) (f v)
                = f v @ spec_render (V @ [v]) f rest" .
        have "find (\<lambda>w. prefix (placeholder w) s) (V @ [v]) = Some v"
          using None True by (simp add: find_snoc)
        then have "spec_render (V @ [v]) f s = f v @ spec_render (V @ [v]) f rest"
          unfolding Cons rest_def by simp
        with lhs show ?thesis by simp
      next
        case False
        have "find (\<lambda>w. prefix (placeholder w) s) (V @ [v]) = None"
          using None False by (simp add: find_snoc)
        then have r: "spec_render (V @ [v]) f s = c # spec_render (V @ [v]) f cs"
          unfolding Cons by simp
        have "\<not> prefix (placeholder v) (c # spec_render V f cs)"
        proof (cases "c = CHR ''{''")
          case c: True
          from "1.prems" c obtain u where u: "u \<in> set D" and pu: "prefix (u @ ''}'') cs"
            unfolding Cons by (auto simp: list_ex_iff)
          from pu obtain rest where cs_eq: "cs = (u @ ''}'') @ rest"
            by (auto simp: prefix_def)
          have u_free: "CHR ''{'' \<notin> set u" "CHR ''}'' \<notin> set u"
            using names u by (auto simp: list_all_iff brace_free_def)
          have out: "spec_render V f cs = (u @ ''}'') @ spec_render V f rest"
            unfolding cs_eq using u_free by (intro spec_render_skip) simp
          show ?thesis
          proof
            assume "prefix (placeholder v) (c # spec_render V f cs)"
            then have "prefix (v @ ''}'') (u @ ''}'' @ spec_render V f rest)"
              unfolding out placeholder_Cons by simp
            with v_free u_free have "v = u" by (intro token_unique)
            then have "prefix (placeholder v) s"
              unfolding Cons cs_eq c placeholder_Cons by simp
            with False show False by contradiction
          qed
        next
          case False
          then show ?thesis by (rule no_token_without_brace)
        qed
        then have "str_replace (spec_render V f s) (placeholder v) (f v)
                = c # str_replace (spec_render V f cs) (placeholder v) (f v)"
          unfolding l by (rule str_replace_miss)
        with IH_cs r show ?thesis by simp
      qed
    qed
  qed
qed

lemma map_of_str_dict:
  "map_of (map (\<lambda>(k, v). (k, PStr v)) kvs) var = map_option PStr (map_of kvs var)"
  by (induction kvs) auto

lemma fill_str_dict:
  "fill (str_dict kvs) result var = Inr (str_replace result (placeholder var) (supplied kvs var))"
  by (cases "map_of kvs var") (simp_all add: fill_def str_dict_def map_of_str_dict supplied_def)

lemma render_loop_str_dict:
  "render_loop (str_dict kvs) vars result
     = Inr (foldl (\<lambda>r v. str_replace r (placeholder v) (supplied kvs v)) result vars)"
  by (induction vars arbitrary: result) (simp_all add: fill_str_dict)

lemma no_later_placeholder_earlier:
  "no_later_placeholder f (V @ v # post) \<Longrightarrow> \<forall>w \<in> set V. \<not> contains (placeholder v) (f w)"
  by (induction V) (auto simp: list_all_iff)

lemma foldl_replace_is_spec_render:
  assumes names: "list_all brace_free D"
    and vals: "no_later_placeholder f D"
    and decl: "placeholders_declared D s"
  shows "D = V @ post \<Longrightarrow>
         foldl (\<lambda>r v. str_replace r (placeholder v) (f v)) s V = spec_render V f s"
proof (induction V arbitrary: post rule: rev_induct)
  case Nil
  show ?case by (simp add: spec_render_no_vars)
next
  case (snoc v V)
  then have D: "D = V @ v # post" by simp
  then have V: "set V \<subseteq> set D" and v: "v \<in> set D" by auto
  from vals have earlier: "\<forall>w \<in> set V. \<not> contains (placeholder v) (f w)"
    unfolding D by (rule no_later_placeholder_earlier)
  have "foldl (\<lambda>r v. str_replace r (placeholder v) (f v)) s (V @ [v])
          = str_replace (spec_render V f s) (placeholder v) (f v)"
    using snoc.IH [OF D] by simp
  also have "\<dots> = spec_render (V @ [v]) f s"
    using names V v earlier decl by (rule replace_after_render)
  finally show ?case .
qed

lemma all_templates_well_formed: "list_all well_formed (map snd TEMPLATES)"
  by code_simp

lemma registered_well_formed:
  assumes "map_of TEMPLATES tid = Some tmpl"
  shows "well_formed tmpl"
proof -
  from assms have "(tid, tmpl) \<in> set TEMPLATES" by (rule map_of_SomeD)
  then have "tmpl \<in> set (map snd TEMPLATES)" by force
  with all_templates_well_formed show ?thesis by (auto simp: list_all_iff)
qed

lemma foldl_replace_cong:
  assumes "\<forall>v \<in> set vars. f v = g v"
  shows "foldl (\<lambda>r v. str_replace r (placeholder v) (f v)) s vars
           = foldl (\<lambda>r v. str_replace r (placeholder v) (g v)) s vars"
  using assms by (induction vars arbitrary: s) simp_all

text \<open>
  C6 (as amended).  For every registered template and every mapping from names to text in
  which no value supplied for a declared variable contains the placeholder token of a
  variable declared after it, \<open>render_template\<close> returns the blueprint with every
  occurrence of the placeholder token of each declared variable replaced by the supplied
  value, or by the marker \<open>[varname]\<close> when the mapping has no value for it, as one
  pass of \<open>spec_render\<close> does; keys of the mapping that are not declared variables are
  ignored: two mappings that agree on the declared variables render alike.
\<close>

theorem render_template_substitutes_placeholders:
  assumes known: "map_of TEMPLATES tid = Some tmpl"
    and vals: "no_later_placeholder (supplied kvs) (t_variables tmpl)"
  shows "render_template tid (str_dict kvs)
           = Inr (spec_render (t_variables tmpl) (supplied kvs) (t_template tmpl))
         \<and> ((\<forall>v \<in> set (t_variables tmpl). map_of kvs' v = map_of kvs v)
              \<longrightarrow> render_template tid (str_dict kvs') = render_template tid (str_dict kvs))"
proof
  from known have wf: "well_formed tmpl" by (rule registered_well_formed)
  then have names: "list_all brace_free (t_variables tmpl)"
    and decl: "placeholders_declared (t_variables tmpl) (t_template tmpl)"
    by (simp_all add: well_formed_def)
  have "foldl (\<lambda>r v. str_replace r (placeholder v) (supplied kvs v)) (t_template tmpl)
           (t_variables tmpl)
          = spec_render (t_variables tmpl) (supplied kvs) (t_template tmpl)"
    using names vals decl by (rule foldl_replace_is_spec_render) simp
  then show "render_template tid (str_dict kvs)
           = Inr (spec_render (t_variables tmpl) (supplied kvs) (t_template tmpl))"
    by (simp add: render_template_def known render_loop_str_dict)
next
  show "(\<forall>v \<in> set (t_variables tmpl). map_of kvs' v = map_of kvs v)
          \<longrightarrow> render_template tid (str_dict kvs') = render_template tid (str_dict kvs)"
  proof
    assume "\<forall>v \<in> set (t_variables tmpl). map_of kvs' v = map_of kvs v"
    then have "\<forall>v \<in> set (t_variables tmpl). supplied kvs' v = supplied kvs v"
      by (simp add: supplied_def)
    then have "foldl (\<lambda>r v. str_replace r (placeholder v) (supplied kvs' v)) (t_template tmpl)
                 (t_variables tmpl)
             = foldl (\<lambda>r v. str_replace r (placeholder v) (supplied kvs v)) (t_template tmpl)
                 (t_variables tmpl)"
      by (rule foldl_replace_cong)
    then show "render_template tid (str_dict kvs') = render_template tid (str_dict kvs)"
      by (simp add: render_template_def known render_loop_str_dict)
  qed
qed

theorem render_template_substitutes_placeholders_witness:
  "map_of TEMPLATES ''code-review'' = Some template_code_review
   \<and> no_later_placeholder
        (supplied [(''language'', ''C''), (''code'', ''int main() { return 0; }'')])
        (t_variables template_code_review)
   \<and> render_template ''code-review''
        (str_dict [(''language'', ''C''), (''code'', ''int main() { return 0; }'')])
      = Inr (''Perform a detailed code review of the following code:\<newline>''
        @ ''\<newline>''
        @ ''```C\<newline>''
        @ ''int main() { return 0; }\<newline>''
        @ ''```\<newline>''
        @ ''\<newline>''
        @ ''Evaluate for:\<newline>''
        @ ''1. Correctness and potential bugs\<newline>''
        @ ''2. Performance and efficiency\<newline>''
        @ ''3. Readability and maintainability\<newline>''
        @ ''4. Security concerns\<newline>''
        @ ''5. Adherence to C best practices\<newline>''
        @ ''\<newline>''
        @ ''Provide specific, actionable suggestions with code examples.'')
   \<and> render_template ''code-review''
        (str_dict [(''colour'', ''red''), (''language'', ''C''),
                   (''code'', ''int main() { return 0; }'')])
      = render_template ''code-review''
        (str_dict [(''language'', ''C''), (''code'', ''int main() { return 0; }'')])"
proof -
  let ?kvs = "[(''language'', ''C''), (''code'', ''int main() { return 0; }'')]"
  let ?kvs' = "[(''colour'', ''red''), (''language'', ''C''),
                (''code'', ''int main() { return 0; }'')]"
  have known: "map_of TEMPLATES ''code-review'' = Some template_code_review"
    by code_simp
  have vars: "t_variables template_code_review = [''language'', ''code'']"
    by (simp add: template_code_review_def)
  have vals: "no_later_placeholder (supplied ?kvs) (t_variables template_code_review)"
    by code_simp
  have same: "\<forall>v \<in> set (t_variables template_code_review). map_of ?kvs' v = map_of ?kvs v"
    unfolding vars by simp
  have spec: "spec_render (t_variables template_code_review) (supplied ?kvs)
                (t_template template_code_review)
      = ''Perform a detailed code review of the following code:\<newline>''
        @ ''\<newline>''
        @ ''```C\<newline>''
        @ ''int main() { return 0; }\<newline>''
        @ ''```\<newline>''
        @ ''\<newline>''
        @ ''Evaluate for:\<newline>''
        @ ''1. Correctness and potential bugs\<newline>''
        @ ''2. Performance and efficiency\<newline>''
        @ ''3. Readability and maintainability\<newline>''
        @ ''4. Security concerns\<newline>''
        @ ''5. Adherence to C best practices\<newline>''
        @ ''\<newline>''
        @ ''Provide specific, actionable suggestions with code examples.''"
    by code_simp
  from render_template_substitutes_placeholders [OF known vals, of ?kvs'] same spec known vals
  show ?thesis by simp
qed

text \<open>
  C6 as stated fails: the code replaces one variable after the other on the text rendered
  so far, so a value that itself holds the placeholder of a variable declared later is
  substituted again.  With \<open>{task_description}\<close> supplied for \<open>language\<close>, the output
  has \<open>X\<close> where the claim puts the supplied value.
\<close>

theorem render_template_resubstitutes_counterexample:
  "render_template ''code-write''
        (str_dict [(''language'', ''{task_description}''), (''task_description'', ''X'')])
      = Inr (''Write X code that accomplishes the following:\<newline>''
        @ ''\<newline>''
        @ ''X\<newline>''
        @ ''\<newline>''
        @ ''Requirements:\<newline>''
        @ ''- Follow best practices and idiomatic patterns for X\<newline>''
        @ ''- Include clear comments explaining the logic\<newline>''
        @ ''- Handle edge cases and errors gracefully\<newline>''
        @ ''- Provide example usage'')
   \<and> spec_render [''language'', ''task_description'']
        (supplied [(''language'', ''{task_description}''), (''task_description'', ''X'')])
        (t_template template_code_write)
      = ''Write {task_description} code that accomplishes the following:\<newline>''
        @ ''\<newline>''
        @ ''X\<newline>''
        @ ''\<newline>''
        @ ''Requirements:\<newline>''
        @ ''- Follow best practices and idiomatic patterns for {task_description}\<newline>''
        @ ''- Include clear comments explaining the logic\<newline>''
        @ ''- Handle edge cases and errors gracefully\<newline>''
        @ ''- Provide example usage''"
  by code_simp


text \<open>
  C8. For a template id that is not in the registry \<open>render_template\<close> fails, whatever
  the variables: it raises \<open>ValueError\<close> with the message \<open>Unknown template: id\<close>,
  the exception that stands for the specification's NotFoundError.  For a registered id
  and a mapping from names to text it returns text.
\<close>

theorem render_template_not_found:
  "(map_of TEMPLATES tid = None
      \<longrightarrow> render_template tid variables = Inl (ValueError (''Unknown template: '' @ tid)))
   \<and> (map_of TEMPLATES tid \<noteq> None
      \<longrightarrow> (\<exists>text. render_template tid (str_dict kvs) = Inr text))"
  by (auto simp: render_template_def render_loop_str_dict)

theorem render_template_not_found_witness:
  "map_of TEMPLATES ''no-such-template'' = None
   \<and> render_template ''no-such-template'' (str_dict [(''concept'', ''gravity'')])
       = Inl (ValueError ''Unknown template: no-such-template'')
   \<and> map_of TEMPLATES ''eli5'' \<noteq> None
   \<and> (\<exists>text. render_template ''eli5'' (str_dict [(''concept'', ''gravity'')]) = Inr text)"
proof -
  have unknown: "map_of TEMPLATES ''no-such-template'' = None" by code_simp
  have known: "map_of TEMPLATES ''eli5'' \<noteq> None" by code_simp
  from render_template_not_found
         [of "''no-such-template''" "str_dict [(''concept'', ''gravity'')]"] unknown
  have "render_template ''no-such-template'' (str_dict [(''concept'', ''gravity'')])
       = Inl (ValueError ''Unknown template: no-such-template'')"
    by simp
  moreover from render_template_not_found [of "''eli5''" _ "[(''concept'', ''gravity'')]"] known
  have "\<exists>text. render_template ''eli5'' (str_dict [(''concept'', ''gravity'')]) = Inr text"
    by blast
  ultimately show ?thesis using unknown known by blast
qed

section \<open>Properties of the orchestrator\<close>

lemma process_returns:
  assumes "resolve_base_prompt json_loads request = Inr rendered"
  shows "\<exists>result history'.
           process json_loads now_result now_entry request history = Inr (result, history')"
  using assms by (simp add: process_def Let_def split_beta)






lemma empty_id_not_registered: "map_of TEMPLATES [] = None"
  by code_simp

lemma render_template_known_returns:
  assumes "map_of TEMPLATES tid = Some tmpl"
  shows "\<exists>rendered. render_template tid (str_dict kvs) = Inr rendered"
  using assms by (simp add: render_template_def render_loop_str_dict)

text \<open>
  Where \<open>json.loads\<close> raises \<open>JSONDecodeError\<close> and the template is registered, the
  fallback mapping is used and \<open>process\<close> returns a result.
\<close>

lemma decode_error_uses_fallback_mapping:
  assumes tid: "rq_template_id request = Some tid"
    and known: "map_of TEMPLATES tid = Some tmpl"
    and undecodable: "json_loads (rq_raw_prompt request) = None"
  shows "resolve_base_prompt json_loads request
           = render_template tid
               (str_dict [(''task_description'', rq_raw_prompt request),
                          (''content'', rq_raw_prompt request)])
         \<and> (\<exists>rendered. resolve_base_prompt json_loads request = Inr rendered)
         \<and> (\<exists>result history'.
               process json_loads now_result now_entry request history = Inr (result, history'))"
proof -
  have "tid \<noteq> []" using known empty_id_not_registered by auto
  then have eq: "resolve_base_prompt json_loads request
           = render_template tid
               (str_dict [(''task_description'', rq_raw_prompt request),
                          (''content'', rq_raw_prompt request)])"
    using tid undecodable by (simp add: resolve_base_prompt_def str_dict_def Let_def)
  from known obtain rendered where
    "render_template tid
               (str_dict [(''task_description'', rq_raw_prompt request),
                          (''content'', rq_raw_prompt request)]) = Inr rendered"
    using render_template_known_returns by blast
  with eq have ok: "resolve_base_prompt json_loads request = Inr rendered" by simp
  then have "\<exists>result history'.
               process json_loads now_result now_entry request history = Inr (result, history')"
    by (rule process_returns)
  with eq ok show ?thesis by blast
qed

text \<open>
  The fallback is taken on \<open>JSONDecodeError\<close> (and \<open>TypeError\<close>) only.  When
  \<open>json.loads\<close> returns a value that is not a dictionary, that value reaches
  \<open>render_template\<close>, and \<open>variables.get\<close> raises \<open>AttributeError\<close> in the first
  round of the loop (every registered template declares a variable).  Any other
  exception of \<open>json.loads\<close> leaves \<open>process\<close> as it is.
\<close>

lemma all_templates_have_variables:
  "list_all (\<lambda>tmpl. t_variables tmpl \<noteq> []) (map snd TEMPLATES)"
  by code_simp

lemma registered_has_variables:
  assumes "map_of TEMPLATES tid = Some tmpl"
  shows "t_variables tmpl \<noteq> []"
proof -
  from assms have "(tid, tmpl) \<in> set TEMPLATES" by (rule map_of_SomeD)
  then have "tmpl \<in> set (map snd TEMPLATES)" by force
  with all_templates_have_variables show ?thesis by (auto simp: list_all_iff)
qed

lemma render_loop_not_a_dict:
  assumes "\<forall>d. variables \<noteq> PDict d" and "vars \<noteq> []"
  shows "render_loop variables vars result = Inl AttributeError"
  using assms by (cases vars; cases variables) (simp_all add: fill_def)

lemma non_mapping_json_raises:
  assumes tid: "rq_template_id request = Some tid"
    and known: "map_of TEMPLATES tid = Some tmpl"
    and parsed: "json_loads (rq_raw_prompt request) = Some (Inr v)"
    and not_dict: "\<forall>d. v \<noteq> PDict d"
  shows "process json_loads now_result now_entry request history = Inl AttributeError"
proof -
  have "tid \<noteq> []" using known empty_id_not_registered by auto
  moreover have "render_template tid v = Inl AttributeError"
    using not_dict registered_has_variables [OF known]
    by (simp add: render_template_def known render_loop_not_a_dict)
  ultimately show ?thesis
    using tid parsed by (simp add: process_def resolve_base_prompt_def Let_def)
qed

lemma json_loads_exception_propagates:
  assumes tid: "rq_template_id request = Some tid" and "tid \<noteq> []"
    and raised: "json_loads (rq_raw_prompt request) = Some (Inl e)"
    and uncaught: "e \<noteq> TypeError"
  shows "process json_loads now_result now_entry request history = Inl e"
  using assms by (simp add: process_def resolve_base_prompt_def Let_def)

text \<open>
  C1. Whenever a template is selected and the raw prompt cannot be read as a mapping from
  names to text, \<open>process\<close> is to fall back to the mapping of \<open>task_description\<close> and
  \<open>content\<close> to the raw text and render the template without an error.  On the raw
  prompt \<open>123\<close> with the registered template \<open>summarize-text\<close> it does not:
  \<open>json.loads\<close> returns the number 123, no exception is caught, the number is handed
  to \<open>render_template\<close> and \<open>process\<close> raises \<open>AttributeError\<close>, although the
  fallback mapping would have rendered.
\<close>

theorem fallback_missed_on_non_mapping_json:
  "process [''123'' \<mapsto> Inr (PInt 123)] 1 2
     \<lparr>rq_raw_prompt = ''123'', rq_tone = professional, rq_category = None,
       rq_context = None, rq_auto_enhance = True,
       rq_template_id = Some ''summarize-text''\<rparr> empty_store
     = Inl AttributeError
   \<and> render_template ''summarize-text''
        (PDict [(''task_description'', PStr ''123''), (''content'', PStr ''123'')])
     = Inr (''Summarize the following content:\<newline>''
        @ ''\<newline>''
        @ ''123\<newline>''
        @ ''\<newline>''
        @ ''Provide:\<newline>''
        @ ''1. A one-paragraph executive summary\<newline>''
        @ ''2. Key bullet points (5-7 items)\<newline>''
        @ ''3. Important details that shouldn'' @ [CHR 0x27] @ ''t be missed\<newline>''
        @ ''4. Action items or next steps (if applicable)'')"
proof -
  have "process [''123'' \<mapsto> Inr (PInt 123)] 1 2
     \<lparr>rq_raw_prompt = ''123'', rq_tone = professional, rq_category = None,
       rq_context = None, rq_auto_enhance = True,
       rq_template_id = Some ''summarize-text''\<rparr> empty_store
     = Inl AttributeError"
    by (simp add: process_def resolve_base_prompt_def render_template_def TEMPLATES_def
          template_summarize_text_def fill_def)
  moreover have "render_template ''summarize-text''
        (PDict [(''task_description'', PStr ''123''), (''content'', PStr ''123'')])
     = Inr (''Summarize the following content:\<newline>''
        @ ''\<newline>''
        @ ''123\<newline>''
        @ ''\<newline>''
        @ ''Provide:\<newline>''
        @ ''1. A one-paragraph executive summary\<newline>''
        @ ''2. Key bullet points (5-7 items)\<newline>''
        @ ''3. Important details that shouldn'' @ [CHR 0x27] @ ''t be missed\<newline>''
        @ ''4. Action items or next steps (if applicable)'')"
    by code_simp
  ultimately show ?thesis by (rule conjI)
qed

end
